theory Spec2Isabelle
  imports Complex_Main
begin

section \<open>Values, platform resources and the world\<close>

text \<open>
  The bot of \<^verbatim>\<open>src/index.ts\<close> talks to three collaborators: the metrics endpoint
  (axios), the key-value store (Redis) and the chat platform (discord.js). The world record
  below holds what each of them would answer, and a trace of every call the program makes.
  Identifiers are strings, as in the source.
\<close>

type_synonym guild_id = string
type_synonym chan_id = string

text \<open>
  A field of the JSON payload as JavaScript sees it: missing (\<open>undefined\<close>), \<open>null\<close>, or a
  number. A finite double is a rational (\<open>Num\<close>); \<^verbatim>\<open>JSON.parse\<close> also yields negative
  zero (from \<^verbatim>\<open>-0\<close>) and the two infinities (from a literal out of range, as
  \<^verbatim>\<open>1e309\<close>). JSON has no NaN.
\<close>

datatype jsval = Undefined | Null | Num rat | NegativeZero | PosInfinity | NegInfinity

record stats_response =
  bigPrice :: jsval
  blocksUntilHalving :: jsval

text \<open>
  What \<^verbatim>\<open>axios.get\<close> meets: no answer at all, an answer with a status outside 2xx
  (axios rejects both), or a 2xx answer whose body is JSON \<open>null\<close> (\<open>None\<close>) or an object.
\<close>

datatype http_result =
    TransportFailure
  | NonSuccess nat
  | Response "stats_response option"

datatype chan_kind = GuildCategory | GuildVoice | GuildText

record channel =
  ch_kind :: chan_kind
  ch_name :: string
  ch_parentId :: "chan_id option"
  ch_position :: int
  ch_manageable :: bool

text \<open>The bot's own membership in a guild: the two permissions the source tests and
  the position of its highest role.\<close>

record member =
  has_ManageChannels :: bool
  has_ViewChannel :: bool
  highest_role_position :: nat

text \<open>
  A guild as the platform holds it. \<open>g_member = None\<close>: \<^verbatim>\<open>guild.members.fetch\<close> rejects.
  \<open>g_channels cid = None\<close>: \<^verbatim>\<open>guild.channels.fetch(cid)\<close> rejects (unknown channel);
  \<open>Some None\<close>: it resolves to \<open>null\<close>; \<open>Some (Some c)\<close>: it resolves to the channel.
  \<open>g_manageable_new\<close> is the value of \<^verbatim>\<open>manageable\<close> the platform derives for a
  channel the bot creates.
\<close>

record guild =
  g_member :: "member option"
  g_channels :: "chan_id \<rightharpoonup> channel option"
  g_manageable_new :: bool

datatype event =
    AxiosGet
  | GuildsFetch guild_id
  | MembersFetch guild_id
  | ChannelsFetch guild_id chan_id
  | ChannelsCreate guild_id chan_kind string "chan_id option" int
  | SetName guild_id chan_id string
  | EditParent guild_id chan_id chan_id
  | EditPosition guild_id chan_id int
  | PermissionOverwritesCreate guild_id chan_id
  | ChannelDelete guild_id chan_id
  | RedisGet string
  | RedisSet string
  | RedisDel string

datatype error =
    NetworkError
  | HttpError nat
  | UnknownGuild
  | UnknownMember
  | UnknownChannel
  | ApiError
  | TypeError
  | NotACategory

text \<open>
  \<open>w_rejects\<close> says which mutating platform calls the platform refuses (missing
  permission, rate limit, ...). \<open>w_next_id\<close> numbers the channels the platform creates.
  \<open>w_kv\<close> are the string keys of Redis; \<open>w_registry\<close> is the value under the key
  \<^verbatim>\<open>guilds\<close>, a JSON array of guild ids (\<open>None\<close>: the key is absent), kept as the list
  that \<^verbatim>\<open>JSON.parse\<close> returns and \<^verbatim>\<open>JSON.stringify\<close> writes.
\<close>

record world =
  w_http :: http_result
  w_guilds :: "guild_id \<rightharpoonup> guild"
  w_rejects :: "event \<Rightarrow> bool"
  w_next_id :: nat
  w_kv :: "string \<rightharpoonup> string"
  w_registry :: "guild_id list option"
  w_trace :: "event list"

section \<open>Asynchronous code as state passing with exceptions\<close>

text \<open>
  An \<^verbatim>\<open>async\<close> function is a function of the world that returns the world it leaves
  and either the value it resolves to (\<open>Inr\<close>) or the error it rejects with (\<open>Inl\<close>).
  \<open>andThen\<close> is \<^verbatim>\<open>await\<close> followed by the rest of the body, \<open>tryCatch\<close> is
  \<^verbatim>\<open>try { ... } catch (error) { ... }\<close>.
\<close>

type_synonym 'a io = "world \<Rightarrow> (error + 'a) \<times> world"

definition ret :: "'a \<Rightarrow> 'a io" where
  "ret x w = (Inr x, w)"

definition throw :: "error \<Rightarrow> 'a io" where
  "throw e w = (Inl e, w)"

definition andThen :: "'a io \<Rightarrow> ('a \<Rightarrow> 'b io) \<Rightarrow> 'b io" where
  "andThen m f w = (case m w of (Inl e, w') \<Rightarrow> (Inl e, w') | (Inr x, w') \<Rightarrow> f x w')"

definition tryCatch :: "'a io \<Rightarrow> (error \<Rightarrow> 'a io) \<Rightarrow> 'a io" where
  "tryCatch m h w = (case m w of (Inl e, w') \<Rightarrow> h e w' | (Inr x, w') \<Rightarrow> (Inr x, w'))"

definition emit :: "event \<Rightarrow> world \<Rightarrow> world" where
  "emit e w = w\<lparr>w_trace := w_trace w @ [e]\<rparr>"

text \<open>The calls a run adds to the trace, and the classes of calls the properties speak of.\<close>

definition new_events :: "world \<Rightarrow> world \<Rightarrow> event list" where
  "new_events w w' = drop (length (w_trace w)) (w_trace w')"

fun is_mutation :: "event \<Rightarrow> bool" where
  "is_mutation (ChannelsCreate g k n p i) = True"
| "is_mutation (SetName g c n) = True"
| "is_mutation (EditParent g c p) = True"
| "is_mutation (EditPosition g c i) = True"
| "is_mutation (PermissionOverwritesCreate g c) = True"
| "is_mutation (ChannelDelete g c) = True"
| "is_mutation e = False"

fun is_store_access :: "event \<Rightarrow> bool" where
  "is_store_access (RedisGet k) = True"
| "is_store_access (RedisSet k) = True"
| "is_store_access (RedisDel k) = True"
| "is_store_access e = False"

fun is_store_write :: "event \<Rightarrow> bool" where
  "is_store_write (RedisSet k) = True"
| "is_store_write (RedisDel k) = True"
| "is_store_write e = False"

section \<open>The platform client\<close>

fun digits :: "nat \<Rightarrow> string" where
  "digits n = (if n < 10 then [''0123456789'' ! n]
     else digits (n div 10) @ [''0123456789'' ! (n mod 10)])"

declare digits.simps [simp del]

text \<open>The id the platform gives to its \<open>n\<close>-th new channel: a decimal string.\<close>

definition snowflake :: "nat \<Rightarrow> chan_id" where
  "snowflake n = digits n"

definition guilds_fetch :: "guild_id \<Rightarrow> unit io" where
  "guilds_fetch gid w =
     (case w_guilds w gid of
        None \<Rightarrow> (Inl UnknownGuild, emit (GuildsFetch gid) w)
      | Some g \<Rightarrow> (Inr (), emit (GuildsFetch gid) w))"

definition members_fetch :: "guild_id \<Rightarrow> member io" where
  "members_fetch gid w =
     (case w_guilds w gid of
        None \<Rightarrow> (Inl UnknownGuild, emit (MembersFetch gid) w)
      | Some g \<Rightarrow>
          (case g_member g of
             None \<Rightarrow> (Inl UnknownMember, emit (MembersFetch gid) w)
           | Some m \<Rightarrow> (Inr m, emit (MembersFetch gid) w)))"

definition channels_fetch :: "guild_id \<Rightarrow> chan_id \<Rightarrow> channel option io" where
  "channels_fetch gid cid w =
     (case w_guilds w gid of
        None \<Rightarrow> (Inl UnknownGuild, emit (ChannelsFetch gid cid) w)
      | Some g \<Rightarrow>
          (case g_channels g cid of
             None \<Rightarrow> (Inl UnknownChannel, emit (ChannelsFetch gid cid) w)
           | Some r \<Rightarrow> (Inr r, emit (ChannelsFetch gid cid) w)))"

definition put_channel :: "guild_id \<Rightarrow> chan_id \<Rightarrow> channel option option \<Rightarrow> world \<Rightarrow> world" where
  "put_channel gid cid r w =
     (case w_guilds w gid of
        None \<Rightarrow> w
      | Some g \<Rightarrow> w\<lparr>w_guilds := (w_guilds w)(gid \<mapsto> g\<lparr>g_channels := (g_channels g)(cid := r)\<rparr>)\<rparr>)"

text \<open>\<^verbatim>\<open>guild.channels.create({name, type, parent, position})\<close>: the new channel's id.
  The source also passes permission overwrites for an indicator (lines 410 to 419); the
  model keeps no overwrite table, and what they mean for the bot's rights over the new
  channel is the guild's \<open>g_manageable_new\<close>.\<close>

definition channels_create ::
  "guild_id \<Rightarrow> chan_kind \<Rightarrow> string \<Rightarrow> chan_id option \<Rightarrow> int \<Rightarrow> chan_id io" where
  "channels_create gid kind name parent position w =
     (let ev = ChannelsCreate gid kind name parent position in
      if w_rejects w ev then (Inl ApiError, emit ev w)
      else case w_guilds w gid of
        None \<Rightarrow> (Inl UnknownGuild, emit ev w)
      | Some g \<Rightarrow>
          (Inr (snowflake (w_next_id w)),
           emit ev (put_channel gid (snowflake (w_next_id w))
             (Some (Some \<lparr>ch_kind = kind, ch_name = name, ch_parentId = parent,
                ch_position = position, ch_manageable = g_manageable_new g\<rparr>))
             (w\<lparr>w_next_id := Suc (w_next_id w)\<rparr>))))"

text \<open>A call on a channel object the program holds: refused by the platform, or gone in
  the meantime, or carried out by \<open>f\<close> on the platform's copy.\<close>

definition channel_call :: "event \<Rightarrow> guild_id \<Rightarrow> chan_id \<Rightarrow> (channel \<Rightarrow> channel option option) \<Rightarrow> unit io" where
  "channel_call ev gid cid f w =
     (if w_rejects w ev then (Inl ApiError, emit ev w)
      else case w_guilds w gid of
        None \<Rightarrow> (Inl UnknownGuild, emit ev w)
      | Some g \<Rightarrow>
          (case g_channels g cid of
             Some (Some c) \<Rightarrow> (Inr (), emit ev (put_channel gid cid (f c) w))
           | _ \<Rightarrow> (Inl UnknownChannel, emit ev w)))"

definition channel_setName :: "guild_id \<Rightarrow> chan_id \<Rightarrow> string \<Rightarrow> unit io" where
  "channel_setName gid cid name =
     channel_call (SetName gid cid name) gid cid (\<lambda>c. Some (Some (c\<lparr>ch_name := name\<rparr>)))"

definition channel_edit_parent :: "guild_id \<Rightarrow> chan_id \<Rightarrow> chan_id \<Rightarrow> unit io" where
  "channel_edit_parent gid cid parent =
     channel_call (EditParent gid cid parent) gid cid
       (\<lambda>c. Some (Some (c\<lparr>ch_parentId := Some parent\<rparr>)))"

definition channel_edit_position :: "guild_id \<Rightarrow> chan_id \<Rightarrow> int \<Rightarrow> unit io" where
  "channel_edit_position gid cid position =
     channel_call (EditPosition gid cid position) gid cid
       (\<lambda>c. Some (Some (c\<lparr>ch_position := position\<rparr>)))"

text \<open>\<^verbatim>\<open>channel.permissionOverwrites.create(bot, {ManageChannels, ViewChannel})\<close>. The
  model keeps no overwrite table: name, parent and position are untouched.\<close>

definition permissionOverwrites_create :: "guild_id \<Rightarrow> chan_id \<Rightarrow> unit io" where
  "permissionOverwrites_create gid cid =
     channel_call (PermissionOverwritesCreate gid cid) gid cid (\<lambda>c. Some (Some c))"

definition channel_delete :: "guild_id \<Rightarrow> chan_id \<Rightarrow> unit io" where
  "channel_delete gid cid =
     channel_call (ChannelDelete gid cid) gid cid (\<lambda>c. None)"

section \<open>The mapping store (index.ts, lines 29 and 69 to 149)\<close>

definition GUILD_KEY :: string where
  "GUILD_KEY = ''guilds''"

definition redis_get :: "string \<Rightarrow> string option io" where
  "redis_get k w = (Inr (w_kv w k), emit (RedisGet k) w)"

definition redis_set :: "string \<Rightarrow> string \<Rightarrow> unit io" where
  "redis_set k v w = (Inr (), emit (RedisSet k) (w\<lparr>w_kv := (w_kv w)(k \<mapsto> v)\<rparr>))"

definition redis_del :: "string \<Rightarrow> unit io" where
  "redis_del k w = (Inr (), emit (RedisDel k) (w\<lparr>w_kv := (w_kv w)(k := None)\<rparr>))"

text \<open>\<^verbatim>\<open>if (!id) return undefined; return id\<close>: the empty string is falsy too.\<close>

definition truthy_id :: "string option \<Rightarrow> string option" where
  "truthy_id r = (case r of None \<Rightarrow> None | Some s \<Rightarrow> if s = [] then None else Some s)"

definition channelGroup_key :: "guild_id \<Rightarrow> string" where
  "channelGroup_key guildId = guildId @ '':channelGroup''"

definition priceChannel_key :: "guild_id \<Rightarrow> string" where
  "priceChannel_key guildId = guildId @ '':priceChannel''"

definition halveningChannel_key :: "guild_id \<Rightarrow> string" where
  "halveningChannel_key guildId = guildId @ '':halveningChannel''"

definition getChannelGroupId :: "guild_id \<Rightarrow> chan_id option io" where
  "getChannelGroupId guildId =
     andThen (redis_get (channelGroup_key guildId)) (\<lambda>stored. ret (truthy_id stored))"

definition setChannelGroupId :: "guild_id \<Rightarrow> chan_id \<Rightarrow> unit io" where
  "setChannelGroupId guildId cid = redis_set (channelGroup_key guildId) cid"

definition removeChannelGroupId :: "guild_id \<Rightarrow> unit io" where
  "removeChannelGroupId guildId = redis_del (channelGroup_key guildId)"

definition getPriceChannelId :: "guild_id \<Rightarrow> chan_id option io" where
  "getPriceChannelId guildId =
     andThen (redis_get (priceChannel_key guildId)) (\<lambda>stored. ret (truthy_id stored))"

definition setPriceChannelId :: "guild_id \<Rightarrow> chan_id \<Rightarrow> unit io" where
  "setPriceChannelId guildId cid = redis_set (priceChannel_key guildId) cid"

definition removePriceChannelId :: "guild_id \<Rightarrow> unit io" where
  "removePriceChannelId guildId = redis_del (priceChannel_key guildId)"

definition getHalveningChannelId :: "guild_id \<Rightarrow> chan_id option io" where
  "getHalveningChannelId guildId =
     andThen (redis_get (halveningChannel_key guildId)) (\<lambda>stored. ret (truthy_id stored))"

definition setHalveningChannelId :: "guild_id \<Rightarrow> chan_id \<Rightarrow> unit io" where
  "setHalveningChannelId guildId cid = redis_set (halveningChannel_key guildId) cid"

definition removeHalveningChannelId :: "guild_id \<Rightarrow> unit io" where
  "removeHalveningChannelId guildId = redis_del (halveningChannel_key guildId)"

text \<open>\<^verbatim>\<open>Array.from(new Set(xs))\<close>: the first occurrence of every element, in order.\<close>

fun uniq :: "'a list \<Rightarrow> 'a list" where
  "uniq [] = []"
| "uniq (x # xs) = x # uniq (filter (\<lambda>y. y \<noteq> x) xs)"

text \<open>\<^verbatim>\<open>getGuilds\<close> (lines 69 to 75): an absent key reads as the empty list.\<close>

definition getGuilds :: "guild_id list io" where
  "getGuilds w =
     (case w_registry w of
        None \<Rightarrow> (Inr [], emit (RedisGet GUILD_KEY) w)
      | Some guilds \<Rightarrow> (Inr guilds, emit (RedisGet GUILD_KEY) w))"

definition set_registry :: "guild_id list \<Rightarrow> unit io" where
  "set_registry guilds w = (Inr (), emit (RedisSet GUILD_KEY) (w\<lparr>w_registry := Some guilds\<rparr>))"

text \<open>\<^verbatim>\<open>addGuild\<close> (lines 77 to 87). \<^verbatim>\<open>getGuilds\<close> always resolves to an array and an
  array is truthy, so the branch \<^verbatim>\<open>if (!guilds)\<close> is never taken.\<close>

definition addGuild :: "guild_id \<Rightarrow> guild_id list io" where
  "addGuild guildId =
     andThen getGuilds (\<lambda>guilds.
     andThen (set_registry (uniq (guilds @ [guildId]))) (\<lambda>_.
     ret (guilds @ [guildId])))"

text \<open>\<^verbatim>\<open>removeGuild\<close> (lines 89 to 99); \<open>None\<close> is the bare \<^verbatim>\<open>return\<close>.\<close>

definition removeGuild :: "guild_id \<Rightarrow> guild_id list option io" where
  "removeGuild guildId =
     andThen getGuilds (\<lambda>guilds.
       if length guilds = 0 then ret None
       else andThen (set_registry (uniq (filter (\<lambda>id. id \<noteq> guildId) guilds))) (\<lambda>_.
            ret (Some guilds)))"

section \<open>The display formatter (index.ts, lines 41 to 54)\<close>

text \<open>
  \<^verbatim>\<open>Intl.NumberFormat\<close> and \<^verbatim>\<open>toLocaleString\<close> belong to the JavaScript runtime, not to
  the repository. The functions below model them for the locale \<^verbatim>\<open>en-US\<close> and the
  options the source passes, after ECMA-402: rounding is half away from zero, the integer
  part is grouped by thousands.
\<close>

definition round_half_expand :: "rat \<Rightarrow> nat" where
  "round_half_expand q = nat \<lfloor>q + 1 / 2\<rfloor>"

fun group_thousands :: "string \<Rightarrow> string" where
  "group_thousands s = (if length s \<le> 3 then s
     else group_thousands (take (length s - 3) s) @ '','' @ drop (length s - 3) s)"

declare group_thousands.simps [simp del]

definition pad_zeros :: "nat \<Rightarrow> string \<Rightarrow> string" where
  "pad_zeros n s = replicate (n - length s) (CHR ''0'') @ s"

text \<open>\<^verbatim>\<open>style: 'currency', currency: 'USD'\<close>, exactly four fraction digits:
  \<open>currency_digits\<close> prints the sign and the value given in ten-thousandths.\<close>

definition currency_digits :: "bool \<Rightarrow> nat \<Rightarrow> string" where
  "currency_digits negative n =
     (if negative then ''-'' else []) @ ''$'' @ group_thousands (digits (n div 10000))
       @ ''.'' @ pad_zeros 4 (digits (n mod 10000))"

definition currency_en_US :: "rat \<Rightarrow> string" where
  "currency_en_US x = currency_digits (x < 0) (round_half_expand (\<bar>x\<bar> * 10000))"

text \<open>
  \<^verbatim>\<open>notation: 'compact', compactDisplay: 'short', maximumFractionDigits: 2\<close>: the value is
  scaled by the largest of thousand, million, billion, trillion that leaves at least one
  integer digit, rounded to hundredths (a value that rounds up to 1000 moves to the next
  unit), and printed without trailing zeros. \<open>pick_unit\<close> returns the hundredths and the suffix.
\<close>

definition compact_units :: "(rat \<times> string) list" where
  "compact_units = [(1, []), (1000, ''K''), (1000000, ''M''), (1000000000, ''B''),
     (1000000000000, ''T'')]"

fun pick_unit :: "rat \<Rightarrow> (rat \<times> string) list \<Rightarrow> nat \<times> string" where
  "pick_unit a [] = (round_half_expand (a * 100), [])"
| "pick_unit a [(u, s)] = (round_half_expand (a / u * 100), s)"
| "pick_unit a ((u, s) # rest) =
     (if round_half_expand (a / u * 100) < 100000 then (round_half_expand (a / u * 100), s)
      else pick_unit a rest)"

definition fraction_part :: "nat \<Rightarrow> string" where
  "fraction_part h =
     (if h mod 100 = 0 then []
      else if h mod 10 = 0 then ''.'' @ digits (h mod 100 div 10)
      else ''.'' @ pad_zeros 2 (digits (h mod 100)))"

text \<open>In compact notation the integer digits are grouped only when there are five or
  more of them (from ten thousand trillion on).\<close>

definition group_from_five :: "string \<Rightarrow> string" where
  "group_from_five s = (if 5 \<le> length s then group_thousands s else s)"

definition compact_en_US :: "rat \<Rightarrow> string" where
  "compact_en_US x =
     (case pick_unit \<bar>x\<bar> compact_units of
        (h, s) \<Rightarrow> (if x < 0 then ''-'' else []) @ group_from_five (digits (h div 100))
          @ fraction_part h @ s)"

text \<open>The infinity sign, three bytes in UTF-8.\<close>

definition infinity_sign :: string where
  "infinity_sign = [CHR 0xE2, CHR 0x88, CHR 0x9E]"

text \<open>\<^verbatim>\<open>formatter.format(v)\<close> (lines 41 to 46) converts its argument to a number first:
  \<open>undefined\<close> becomes NaN, \<open>null\<close> becomes 0. It does not throw.\<close>

definition formatter_format :: "jsval \<Rightarrow> string" where
  "formatter_format v =
     (case v of
        Undefined \<Rightarrow> ''$NaN''
      | Null \<Rightarrow> currency_en_US 0
      | Num x \<Rightarrow> currency_en_US x
      | NegativeZero \<Rightarrow> currency_digits True 0
      | PosInfinity \<Rightarrow> ''$'' @ infinity_sign
      | NegInfinity \<Rightarrow> ''-$'' @ infinity_sign)"

text \<open>\<^verbatim>\<open>formatNumber\<close> (lines 48 to 54) calls the method \<^verbatim>\<open>toLocaleString\<close> of its
  argument: on \<open>undefined\<close> and \<open>null\<close> the property access throws a TypeError.\<close>

definition formatNumber :: "jsval \<Rightarrow> error + string" where
  "formatNumber number =
     (case number of
        Undefined \<Rightarrow> Inl TypeError
      | Null \<Rightarrow> Inl TypeError
      | Num x \<Rightarrow> Inr (compact_en_US x)
      | NegativeZero \<Rightarrow> Inr ''-0''
      | PosInfinity \<Rightarrow> Inr infinity_sign
      | NegInfinity \<Rightarrow> Inr (''-'' @ infinity_sign))"

text \<open>The later revision of \<^verbatim>\<open>formatNumber\<close> (\<^verbatim>\<open>src/unnamed/part_001\<close>, lines 55 to 64,
  parameter type \<^verbatim>\<open>number | null | undefined\<close>) tests for both first and then makes the
  same call.\<close>

definition formatNumber_guarded :: "jsval \<Rightarrow> error + string" where
  "formatNumber_guarded number =
     (if number = Null \<or> number = Undefined then Inr ''0'' else formatNumber number)"

section \<open>The metrics fetcher\<close>

definition axios_get :: "stats_response option io" where
  "axios_get w =
     (case w_http w of
        TransportFailure \<Rightarrow> (Inl NetworkError, emit AxiosGet w)
      | NonSuccess status \<Rightarrow> (Inl (HttpError status), emit AxiosGet w)
      | Response data \<Rightarrow> (Inr data, emit AxiosGet w))"

text \<open>\<^verbatim>\<open>getStats\<close> of \<^verbatim>\<open>src/index.ts\<close> (lines 56 to 67): no \<^verbatim>\<open>try\<close>, no validation.
  Reading a property of a \<open>null\<close> body throws a TypeError.\<close>

definition getStats :: "(jsval \<times> jsval) io" where
  "getStats =
     andThen axios_get (\<lambda>data.
       case data of
         None \<Rightarrow> throw TypeError
       | Some d \<Rightarrow> ret (bigPrice d, blocksUntilHalving d))"

text \<open>\<^verbatim>\<open>getStats\<close> of the later revision (\<^verbatim>\<open>src/unnamed/part_001\<close>, lines 66 to 99):
  the body is validated and every error is caught.\<close>

text \<open>\<^verbatim>\<open>typeof v === 'number'\<close>.\<close>

definition is_number :: "jsval \<Rightarrow> bool" where
  "is_number v = (v \<noteq> Undefined \<and> v \<noteq> Null)"

definition getStats_guarded :: "(jsval \<times> jsval) io" where
  "getStats_guarded =
     tryCatch
       (andThen axios_get (\<lambda>data.
          case data of
            None \<Rightarrow> ret (Num 0, Num 0)
          | Some d \<Rightarrow>
              if \<not> is_number (bigPrice d) \<or> \<not> is_number (blocksUntilHalving d)
              then ret (Num 0, Num 0)
              else ret (bigPrice d, blocksUntilHalving d)))
       (\<lambda>error. ret (Num 0, Num 0))"

section \<open>The grouping container (index.ts, lines 168 to 222)\<close>

text \<open>The category's name as line 171 of \<^verbatim>\<open>src/index.ts\<close> holds it: nine bytes (an emoji
  read in the wrong encoding and stored again as UTF-8) followed by \<^verbatim>\<open> BIGCOIN\<close>.\<close>

definition group_name :: string where
  "group_name = [CHR 0xC3, CHR 0xB0, CHR 0xC5, CHR 0xB8, CHR 0xC5, CHR 0x92, CHR 0xE2,
     CHR 0x80, CHR 0xA2] @ '' BIGCOIN''"

definition createChannelGroup :: "guild_id \<Rightarrow> chan_id io" where
  "createChannelGroup guildId =
     andThen (guilds_fetch guildId) (\<lambda>guild.
     andThen (channels_create guildId GuildCategory group_name None 0) (\<lambda>channelGroup.
     andThen (setChannelGroupId guildId channelGroup) (\<lambda>_.
     ret channelGroup)))"

text \<open>\<^verbatim>\<open>ensureChannelGroupExists\<close> (lines 180 to 203). The flag is \<open>True\<close> where the
  \<^verbatim>\<open>try\<close> block returns the stored id (line 194).\<close>

definition ensureChannelGroupExists :: "guild_id \<Rightarrow> chan_id io" where
  "ensureChannelGroupExists guildId =
     andThen (guilds_fetch guildId) (\<lambda>guild.
     andThen (getChannelGroupId guildId) (\<lambda>channelGroupId.
       case channelGroupId of
         None \<Rightarrow> createChannelGroup guildId
       | Some stored \<Rightarrow>
           andThen
             (tryCatch
                (andThen (channels_fetch guildId stored) (\<lambda>existingChannelGroup.
                   ret (existingChannelGroup \<noteq> None)))
                (\<lambda>error. ret False))
             (\<lambda>found.
                if found then ret stored
                else andThen (removeChannelGroupId guildId) (\<lambda>_.
                     createChannelGroup guildId))))"

text \<open>Deleting what a stored id points to, when it is still there (lines 209 to 218,
  230 to 240, 254 to 264): a failed fetch or delete is logged and swallowed.\<close>

definition delete_if_present :: "guild_id \<Rightarrow> chan_id \<Rightarrow> unit io" where
  "delete_if_present guildId cid =
     tryCatch
       (andThen (channels_fetch guildId cid) (\<lambda>fetched.
          case fetched of
            None \<Rightarrow> ret ()
          | Some c \<Rightarrow> channel_delete guildId cid))
       (\<lambda>error. ret ())"

text \<open>\<^verbatim>\<open>removeChannelGroup\<close> (lines 205 to 222) has no \<^verbatim>\<open>try\<close> around the guild fetch.\<close>

definition removeChannelGroup :: "guild_id \<Rightarrow> unit io" where
  "removeChannelGroup guildId =
     andThen (guilds_fetch guildId) (\<lambda>guild.
     andThen (getChannelGroupId guildId) (\<lambda>stored.
       case stored of
         None \<Rightarrow> ret ()
       | Some cid \<Rightarrow>
           andThen (delete_if_present guildId cid) (\<lambda>_.
           removeChannelGroupId guildId)))"

text \<open>\<^verbatim>\<open>removePriceChannel\<close> (lines 224 to 246) and \<^verbatim>\<open>removeHalveningChannel\<close>
  (lines 248 to 270): the outer \<^verbatim>\<open>catch\<close> only logs.\<close>

definition removePriceChannel :: "guild_id \<Rightarrow> unit io" where
  "removePriceChannel guildId =
     tryCatch
       (andThen (guilds_fetch guildId) (\<lambda>guild.
        andThen (getPriceChannelId guildId) (\<lambda>priceChannelId.
          case priceChannelId of
            None \<Rightarrow> ret ()
          | Some cid \<Rightarrow>
              andThen (delete_if_present guildId cid) (\<lambda>_.
              removePriceChannelId guildId))))
       (\<lambda>error. ret ())"

definition removeHalveningChannel :: "guild_id \<Rightarrow> unit io" where
  "removeHalveningChannel guildId =
     tryCatch
       (andThen (guilds_fetch guildId) (\<lambda>guild.
        andThen (getHalveningChannelId guildId) (\<lambda>halveningChannelId.
          case halveningChannelId of
            None \<Rightarrow> ret ()
          | Some cid \<Rightarrow>
              andThen (delete_if_present guildId cid) (\<lambda>_.
              removeHalveningChannelId guildId))))
       (\<lambda>error. ret ())"

text \<open>
  The later revision of the three functions (\<^verbatim>\<open>src/unnamed/part_001\<close>, lines 290 to 374):
  every one of them has the outer \<^verbatim>\<open>try\<close>, and its \<^verbatim>\<open>catch\<close> removes the stored id
  when the error has code 10004 (unknown guild).
\<close>

definition removePriceChannel_guarded :: "guild_id \<Rightarrow> unit io" where
  "removePriceChannel_guarded guildId =
     tryCatch
       (andThen (guilds_fetch guildId) (\<lambda>guild.
        andThen (getPriceChannelId guildId) (\<lambda>priceChannelId.
          case priceChannelId of
            None \<Rightarrow> ret ()
          | Some cid \<Rightarrow>
              andThen (delete_if_present guildId cid) (\<lambda>_.
              removePriceChannelId guildId))))
       (\<lambda>error. if error = UnknownGuild then removePriceChannelId guildId else ret ())"

definition removeHalveningChannel_guarded :: "guild_id \<Rightarrow> unit io" where
  "removeHalveningChannel_guarded guildId =
     tryCatch
       (andThen (guilds_fetch guildId) (\<lambda>guild.
        andThen (getHalveningChannelId guildId) (\<lambda>halveningChannelId.
          case halveningChannelId of
            None \<Rightarrow> ret ()
          | Some cid \<Rightarrow>
              andThen (delete_if_present guildId cid) (\<lambda>_.
              removeHalveningChannelId guildId))))
       (\<lambda>error. if error = UnknownGuild then removeHalveningChannelId guildId else ret ())"

definition removeChannelGroup_guarded :: "guild_id \<Rightarrow> unit io" where
  "removeChannelGroup_guarded guildId =
     tryCatch
       (andThen (guilds_fetch guildId) (\<lambda>guild.
        andThen (getChannelGroupId guildId) (\<lambda>stored.
          case stored of
            None \<Rightarrow> ret ()
          | Some cid \<Rightarrow>
              andThen (delete_if_present guildId cid) (\<lambda>_.
              removeChannelGroupId guildId))))
       (\<lambda>error. if error = UnknownGuild then removeChannelGroupId guildId else ret ())"

section \<open>The reconciler: updateChannel (index.ts, lines 272 to 541)\<close>

datatype channel_type = Price | Halvening

text \<open>
  \<^verbatim>\<open>updateChannel\<close> resolves to \<open>undefined\<close> on every path. The model returns the exit it
  took, which the source tells apart by the message it logs: the three \<^verbatim>\<open>return\<close>s of
  the permission check (lines 295, 303, 314), the \<^verbatim>\<open>return\<close> after a failed
  permission repair (line 452) or rename (line 471), the \<^verbatim>\<open>catch\<close> of lines 536 to 540
  with the error it caught, or the end of the body.
\<close>

datatype outcome =
    Updated
  | MissingManageChannels
  | MissingViewChannel
  | NoRoles
  | PermissionFixFailed
  | NameUpdateFailed
  | Caught error

definition getChannelId :: "channel_type \<Rightarrow> guild_id \<Rightarrow> chan_id option io" where
  "getChannelId channelType =
     (case channelType of Price \<Rightarrow> getPriceChannelId | Halvening \<Rightarrow> getHalveningChannelId)"

definition setChannelId :: "channel_type \<Rightarrow> guild_id \<Rightarrow> chan_id \<Rightarrow> unit io" where
  "setChannelId channelType =
     (case channelType of Price \<Rightarrow> setPriceChannelId | Halvening \<Rightarrow> setHalveningChannelId)"

definition removeChannelId :: "channel_type \<Rightarrow> guild_id \<Rightarrow> unit io" where
  "removeChannelId channelType =
     (case channelType of Price \<Rightarrow> removePriceChannelId | Halvening \<Rightarrow> removeHalveningChannelId)"

text \<open>Lines 319 to 347: fetch the category again; when that fails, or what comes back is
  \<open>null\<close> (reading \<^verbatim>\<open>channelGroup.name\<close> throws) or not a category, forget the stored id
  and create a new category. The result is \<^verbatim>\<open>channelGroup.id\<close>.\<close>

definition fetchChannelGroup :: "guild_id \<Rightarrow> chan_id \<Rightarrow> chan_id io" where
  "fetchChannelGroup guildId channelGroupId =
     tryCatch
       (andThen (channels_fetch guildId channelGroupId) (\<lambda>channelGroup.
          case channelGroup of
            None \<Rightarrow> throw TypeError
          | Some cg \<Rightarrow>
              if ch_kind cg \<noteq> GuildCategory then throw NotACategory
              else ret channelGroupId))
       (\<lambda>error.
          andThen (removeChannelGroupId guildId) (\<lambda>_.
          andThen (createChannelGroup guildId) (\<lambda>newChannelGroupId.
          andThen (channels_fetch guildId newChannelGroupId) (\<lambda>channelGroup.
            case channelGroup of
              None \<Rightarrow> throw TypeError
            | Some cg \<Rightarrow> ret newChannelGroupId))))"

text \<open>Lines 357 to 400: the stored child, when its id is stored and it is a live voice
  channel; otherwise the stored id is removed and the result is \<open>None\<close>.\<close>

definition fetchStoredChannel :: "guild_id \<Rightarrow> channel_type \<Rightarrow> (chan_id \<times> channel) option io" where
  "fetchStoredChannel guildId channelType =
     andThen (getChannelId channelType guildId) (\<lambda>channelId.
       case channelId of
         None \<Rightarrow> ret None
       | Some cid \<Rightarrow>
           tryCatch
             (andThen (channels_fetch guildId cid) (\<lambda>fetchedChannel.
                case fetchedChannel of
                  None \<Rightarrow> andThen (removeChannelId channelType guildId) (\<lambda>_. ret None)
                | Some fc \<Rightarrow>
                    if ch_kind fc \<noteq> GuildVoice
                    then andThen (removeChannelId channelType guildId) (\<lambda>_. ret None)
                    else ret (Some (cid, fc))))
             (\<lambda>error. andThen (removeChannelId channelType guildId) (\<lambda>_. ret None)))"

text \<open>Lines 403 to 430: create the child and store its id; an error is logged and thrown
  again.\<close>

definition createChannel ::
  "guild_id \<Rightarrow> channel_type \<Rightarrow> string \<Rightarrow> chan_id \<Rightarrow> int \<Rightarrow> outcome io" where
  "createChannel guildId channelType value groupId position =
     tryCatch
       (andThen (channels_create guildId GuildVoice value (Some groupId) position) (\<lambda>newChannel.
        andThen (setChannelId channelType guildId newChannel) (\<lambda>_.
        ret Updated)))
       (\<lambda>createError. throw createError)"

text \<open>Lines 431 to 535: repair the live child, in four steps: the permission repair
  (lines 434 to 454), the name (456 to 477), the parent (479 to 502) and the position
  (504 to 527). The first two resolve to \<open>False\<close> where the source leaves the function with
  \<^verbatim>\<open>return\<close> (lines 452 and 471); the name, the parent and the position are those of the
  channel object fetched before.\<close>

definition fixPermissions :: "guild_id \<Rightarrow> chan_id \<Rightarrow> channel \<Rightarrow> bool io" where
  "fixPermissions guildId cid channel =
     (if \<not> ch_manageable channel
      then tryCatch (andThen (permissionOverwrites_create guildId cid) (\<lambda>_. ret True))
             (\<lambda>permError. ret False)
      else ret True)"

definition fixName :: "guild_id \<Rightarrow> chan_id \<Rightarrow> channel \<Rightarrow> string \<Rightarrow> bool io" where
  "fixName guildId cid channel value =
     (if ch_name channel \<noteq> value
      then tryCatch (andThen (channel_setName guildId cid value) (\<lambda>_. ret True))
             (\<lambda>nameError. ret False)
      else ret True)"

definition fixParent :: "guild_id \<Rightarrow> chan_id \<Rightarrow> channel \<Rightarrow> chan_id \<Rightarrow> unit io" where
  "fixParent guildId cid channel groupId =
     (if ch_parentId channel \<noteq> Some groupId
      then tryCatch (channel_edit_parent guildId cid groupId) (\<lambda>moveError. ret ())
      else ret ())"

definition fixPosition :: "guild_id \<Rightarrow> chan_id \<Rightarrow> channel \<Rightarrow> int \<Rightarrow> unit io" where
  "fixPosition guildId cid channel position =
     (if ch_position channel \<noteq> position
      then tryCatch (channel_edit_position guildId cid position) (\<lambda>positionError. ret ())
      else ret ())"

definition updateExisting ::
  "guild_id \<Rightarrow> chan_id \<Rightarrow> channel \<Rightarrow> string \<Rightarrow> chan_id \<Rightarrow> int \<Rightarrow> outcome io" where
  "updateExisting guildId cid channel value groupId position =
     tryCatch
       (andThen (fixPermissions guildId cid channel) (\<lambda>manageable.
          if \<not> manageable then ret PermissionFixFailed
          else andThen (fixName guildId cid channel value) (\<lambda>named.
            if \<not> named then ret NameUpdateFailed
            else andThen (fixParent guildId cid channel groupId) (\<lambda>_.
                 andThen (fixPosition guildId cid channel position) (\<lambda>_.
                 ret Updated)))))
       (\<lambda>editError. throw editError)"

definition updateChannel :: "guild_id \<Rightarrow> channel_type \<Rightarrow> string \<Rightarrow> int \<Rightarrow> outcome io" where
  "updateChannel guildId channelType value position =
     tryCatch
       (andThen (guilds_fetch guildId) (\<lambda>guild.
        andThen (members_fetch guildId) (\<lambda>botMember.
          if \<not> has_ManageChannels botMember then ret MissingManageChannels
          else if \<not> has_ViewChannel botMember then ret MissingViewChannel
          else if highest_role_position botMember = 0 then ret NoRoles
          else
            andThen (ensureChannelGroupExists guildId) (\<lambda>channelGroupId.
            andThen (fetchChannelGroup guildId channelGroupId) (\<lambda>groupId.
            andThen (fetchStoredChannel guildId channelType) (\<lambda>channel.
              case channel of
                None \<Rightarrow> createChannel guildId channelType value groupId position
              | Some (cid, c) \<Rightarrow> updateExisting guildId cid c value groupId position))))))
       (\<lambda>error. ret (Caught error))"

definition price_label :: "jsval \<Rightarrow> string" where
  "price_label price = ''$BIG: '' @ formatter_format price"

text \<open>\<^verbatim>\<open>updatePriceChannel\<close> (lines 543 to 546).\<close>

definition updatePriceChannel :: "guild_id \<Rightarrow> jsval \<Rightarrow> outcome io" where
  "updatePriceChannel guildId price = updateChannel guildId Price (price_label price) 0"

text \<open>\<^verbatim>\<open>updateHalveningChannel\<close> (lines 548 to 554): \<^verbatim>\<open>formatNumber\<close> runs outside
  the \<^verbatim>\<open>try\<close> of \<^verbatim>\<open>updateChannel\<close>, so its TypeError rejects the call.\<close>

definition updateHalveningChannel :: "guild_id \<Rightarrow> jsval \<Rightarrow> outcome io" where
  "updateHalveningChannel guildId blocks =
     (case formatNumber blocks of
        Inl e \<Rightarrow> throw e
      | Inr s \<Rightarrow> updateChannel guildId Halvening (''HALVENING: '' @ s) 1)"

section \<open>The scheduled pass and the lifecycle handlers\<close>

text \<open>The loop of \<^verbatim>\<open>updatePrice\<close> (lines 162 to 165).\<close>

fun updateGuilds :: "guild_id list \<Rightarrow> jsval \<Rightarrow> jsval \<Rightarrow> unit io" where
  "updateGuilds [] price blocks = ret ()"
| "updateGuilds (guildId # rest) price blocks =
     andThen (updatePriceChannel guildId price) (\<lambda>_.
     andThen (updateHalveningChannel guildId blocks) (\<lambda>_.
     updateGuilds rest price blocks))"

text \<open>\<^verbatim>\<open>updatePrice\<close> (lines 151 to 166). The log line of lines 154 to 158 calls
  \<^verbatim>\<open>formatNumber\<close>, which may throw.\<close>

definition updatePrice :: "unit io" where
  "updatePrice =
     andThen getStats (\<lambda>(price, blocks).
     andThen getGuilds (\<lambda>guilds.
       case formatNumber blocks of
         Inl e \<Rightarrow> throw e
       | Inr s \<Rightarrow>
           if length guilds = 0 then ret ()
           else updateGuilds guilds price blocks))"

text \<open>The handler of \<^verbatim>\<open>guildCreate\<close> (lines 564 to 569).\<close>

definition guildCreate :: "guild_id \<Rightarrow> unit io" where
  "guildCreate guildId =
     andThen getStats (\<lambda>(price, blocks).
     andThen (updatePriceChannel guildId price) (\<lambda>_.
     andThen (updateHalveningChannel guildId blocks) (\<lambda>_.
     andThen (addGuild guildId) (\<lambda>_.
     ret ()))))"

text \<open>The handler of \<^verbatim>\<open>guildDelete\<close> (lines 571 to 576).\<close>

definition guildDelete :: "guild_id \<Rightarrow> unit io" where
  "guildDelete guildId =
     andThen (removeGuild guildId) (\<lambda>_.
     andThen (removePriceChannel guildId) (\<lambda>_.
     andThen (removeHalveningChannel guildId) (\<lambda>_.
     removeChannelGroup guildId)))"

text \<open>The same handler over the later revision of the three functions.\<close>

definition guildDelete_guarded :: "guild_id \<Rightarrow> unit io" where
  "guildDelete_guarded guildId =
     andThen (removeGuild guildId) (\<lambda>_.
     andThen (removePriceChannel_guarded guildId) (\<lambda>_.
     andThen (removeHalveningChannel_guarded guildId) (\<lambda>_.
     removeChannelGroup_guarded guildId)))"

section \<open>Notions the properties are stated with\<close>

text \<open>The channel a \<^verbatim>\<open>fetch\<close> of \<open>cid\<close> in guild \<open>gid\<close> resolves to, if any.\<close>

definition live :: "world \<Rightarrow> guild_id \<Rightarrow> chan_id \<Rightarrow> channel option" where
  "live w gid cid =
     (case w_guilds w gid of
        None \<Rightarrow> None
      | Some g \<Rightarrow> (case g_channels g cid of Some (Some c) \<Rightarrow> Some c | _ \<Rightarrow> None))"

fun permission_denied :: "outcome \<Rightarrow> bool" where
  "permission_denied MissingManageChannels = True"
| "permission_denied MissingViewChannel = True"
| "permission_denied NoRoles = True"
| "permission_denied d = False"

subsection \<open>Example worlds\<close>

definition bot :: member where
  "bot = \<lparr>has_ManageChannels = True, has_ViewChannel = True, highest_role_position = 1\<rparr>"

definition payload :: stats_response where
  "payload = \<lparr>bigPrice = Num (12345 / 10), blocksUntilHalving = Num 1500000\<rparr>"

text \<open>A guild the bot has just joined: no channel of the bot yet, nothing stored.\<close>

definition fresh_world :: world where
  "fresh_world =
     \<lparr>w_http = Response (Some payload),
      w_guilds = [''g1'' \<mapsto> \<lparr>g_member = Some bot, g_channels = Map.empty,
         g_manageable_new = True\<rparr>],
      w_rejects = (\<lambda>e. False), w_next_id = 100, w_kv = Map.empty, w_registry = None,
      w_trace = []\<rparr>"

text \<open>The same guild, where the bot has a role but not the permission to manage channels.\<close>

definition denied_world :: world where
  "denied_world =
     fresh_world\<lparr>w_guilds := [''g1'' \<mapsto> \<lparr>g_member = Some (bot\<lparr>has_ManageChannels := False\<rparr>),
        g_channels = Map.empty, g_manageable_new = True\<rparr>]\<rparr>"

text \<open>The guild has removed the bot and is no longer reachable (\<^verbatim>\<open>client.guilds.fetch\<close>
  rejects); the store still holds the three ids and the registry still lists the guild.\<close>

definition left_world :: world where
  "left_world =
     fresh_world\<lparr>w_guilds := Map.empty,
       w_kv := [''g1:channelGroup'' \<mapsto> ''100'', ''g1:priceChannel'' \<mapsto> ''101'',
                ''g1:halveningChannel'' \<mapsto> ''102''],
       w_registry := Some [''g1'']\<rparr>"

text \<open>The guild after the bot has joined and one pass has run with the metrics of
  \<open>payload\<close>: the category and both indicators exist and their ids are stored. The price
  indicator is a parameter, to vary it.\<close>

definition category_100 :: channel where
  "category_100 = \<lparr>ch_kind = GuildCategory, ch_name = group_name, ch_parentId = None,
     ch_position = 0, ch_manageable = True\<rparr>"

definition price_101 :: channel where
  "price_101 = \<lparr>ch_kind = GuildVoice, ch_name = ''$BIG: $1,234.5000'',
     ch_parentId = Some ''100'', ch_position = 0, ch_manageable = True\<rparr>"

definition halvening_102 :: channel where
  "halvening_102 = \<lparr>ch_kind = GuildVoice, ch_name = ''HALVENING: 1.5M'',
     ch_parentId = Some ''100'', ch_position = 1, ch_manageable = True\<rparr>"

definition settled_with :: "channel \<Rightarrow> world" where
  "settled_with price_channel =
     fresh_world\<lparr>w_guilds := [''g1'' \<mapsto> \<lparr>g_member = Some bot,
         g_channels = [''100'' \<mapsto> Some category_100, ''101'' \<mapsto> Some price_channel,
           ''102'' \<mapsto> Some halvening_102],
         g_manageable_new = True\<rparr>],
       w_next_id := 103,
       w_kv := [''g1:channelGroup'' \<mapsto> ''100'', ''g1:priceChannel'' \<mapsto> ''101'',
                ''g1:halveningChannel'' \<mapsto> ''102''],
       w_registry := Some [''g1'']\<rparr>"

definition settled_world :: world where
  "settled_world = settled_with price_101"

text \<open>The same, but the platform reports the price indicator as not manageable by the
  bot.\<close>

definition unmanageable_world :: world where
  "unmanageable_world = settled_with (price_101\<lparr>ch_manageable := False\<rparr>)"

text \<open>The price indicator has drifted in name, parent and position, and the platform
  refuses every rename.\<close>

definition drifted_world :: world where
  "drifted_world =
     (settled_with (price_101\<lparr>ch_name := ''$BIG: $1.0000'', ch_parentId := None,
        ch_position := 7\<rparr>))
     \<lparr>w_rejects := (\<lambda>e. case e of SetName g c n \<Rightarrow> True | _ \<Rightarrow> False)\<rparr>"

text \<open>The price indicator is in the wrong category and at the wrong position, and the
  platform refuses to move it to another category.\<close>

definition misplaced_world :: world where
  "misplaced_world =
     (settled_with (price_101\<lparr>ch_parentId := None, ch_position := 7\<rparr>))
     \<lparr>w_rejects := (\<lambda>e. case e of EditParent g c p \<Rightarrow> True | _ \<Rightarrow> False)\<rparr>"

text \<open>A registered guild without channels, where the platform refuses to create a voice
  channel at position 0 (the price indicator) and nothing else.\<close>

definition price_rejecting_world :: world where
  "price_rejecting_world =
     fresh_world\<lparr>w_registry := Some [''g1''],
       w_rejects := (\<lambda>e. case e of ChannelsCreate g k n p i \<Rightarrow> k = GuildVoice \<and> i = 0
                         | _ \<Rightarrow> False)\<rparr>"

text \<open>The price indicator has drifted in name, parent and position, and the platform
  refuses nothing.\<close>

definition renamed_world :: world where
  "renamed_world =
     settled_with (price_101\<lparr>ch_name := ''$BIG: $1.0000'', ch_parentId := None,
        ch_position := 7\<rparr>)"

text \<open>The price indicator has an old name and is reported as not manageable, and the
  platform refuses the permission overwrite.\<close>

definition locked_world :: world where
  "locked_world =
     (settled_with (price_101\<lparr>ch_name := ''$BIG: $1.0000'', ch_manageable := False\<rparr>))
     \<lparr>w_rejects := (\<lambda>e. case e of PermissionOverwritesCreate g c \<Rightarrow> True | _ \<Rightarrow> False)\<rparr>"

text \<open>The settled guild, registered, while the metrics endpoint cannot be reached.\<close>

definition offline_world :: world where
  "offline_world = settled_world\<lparr>w_http := TransportFailure\<rparr>"

text \<open>A registered guild without channels, while the endpoint answers with a payload that
  has no \<^verbatim>\<open>blocksUntilHalving\<close>.\<close>

definition fieldless_world :: world where
  "fieldless_world =
     fresh_world\<lparr>w_http := Response (Some \<lparr>bigPrice = Num (12345 / 10),
        blocksUntilHalving = Undefined\<rparr>), w_registry := Some [''g1'']\<rparr>"

text \<open>A call that moves a channel to another category or position.\<close>

fun is_move :: "event \<Rightarrow> bool" where
  "is_move (EditParent g c p) = True"
| "is_move (EditPosition g c i) = True"
| "is_move e = False"

text \<open>The list the registry holds.\<close>

definition registered :: "world \<Rightarrow> guild_id list" where
  "registered w = (case w_registry w of None \<Rightarrow> [] | Some guilds \<Rightarrow> guilds)"

text \<open>The display name a call writes to an indicator, if it writes one.\<close>

fun written_name :: "event \<Rightarrow> string option" where
  "written_name (ChannelsCreate g GuildVoice n p i) = Some n"
| "written_name (SetName g c n) = Some n"
| "written_name e = None"

text \<open>The two display names that one snapshot of the metrics stands for.\<close>

definition snapshot_labels :: "jsval \<Rightarrow> jsval \<Rightarrow> string list" where
  "snapshot_labels price blocks =
     price_label price #
       (case formatNumber blocks of Inl e \<Rightarrow> [] | Inr s \<Rightarrow> [''HALVENING: '' @ s])"

text \<open>
  Convergence, after the words of the specification: the stored group id refers to a live
  category, and the stored id of each indicator refers to a live voice channel whose name,
  parent and position are the desired ones.
\<close>

definition child_key :: "channel_type \<Rightarrow> guild_id \<Rightarrow> string" where
  "child_key channelType g =
     (case channelType of Price \<Rightarrow> priceChannel_key g | Halvening \<Rightarrow> halveningChannel_key g)"

definition child_converged ::
  "world \<Rightarrow> guild_id \<Rightarrow> channel_type \<Rightarrow> chan_id \<Rightarrow> string \<Rightarrow> int \<Rightarrow> bool" where
  "child_converged w g channelType grp name position =
     (case truthy_id (w_kv w (child_key channelType g)) of
        None \<Rightarrow> False
      | Some cid \<Rightarrow>
          (case live w g cid of
             None \<Rightarrow> False
           | Some c \<Rightarrow> ch_kind c = GuildVoice \<and> ch_name c = name
               \<and> ch_parentId c = Some grp \<and> ch_position c = position))"

definition converged :: "world \<Rightarrow> guild_id \<Rightarrow> jsval \<Rightarrow> jsval \<Rightarrow> bool" where
  "converged w g price blocks =
     (case truthy_id (w_kv w (channelGroup_key g)) of
        None \<Rightarrow> False
      | Some grp \<Rightarrow>
          (case live w g grp of
             None \<Rightarrow> False
           | Some cg \<Rightarrow> ch_kind cg = GuildCategory
               \<and> child_converged w g Price grp (price_label price) 0
               \<and> (case formatNumber blocks of
                    Inl e \<Rightarrow> False
                  | Inr s \<Rightarrow> child_converged w g Halvening grp (''HALVENING: '' @ s) 1)))"

text \<open>The platform reports the stored indicator of the given role as manageable.\<close>

definition child_manageable :: "world \<Rightarrow> guild_id \<Rightarrow> channel_type \<Rightarrow> bool" where
  "child_manageable w g channelType =
     (case truthy_id (w_kv w (child_key channelType g)) of
        None \<Rightarrow> False
      | Some cid \<Rightarrow> (case live w g cid of None \<Rightarrow> False | Some c \<Rightarrow> ch_manageable c))"

subsection \<open>What a run adds to the trace\<close>

text \<open>
  \<open>grows P w w'\<close>: from \<open>w\<close> to \<open>w'\<close> the trace has only been extended, by calls that
  satisfy \<open>P\<close>, and neither the registry nor the answers of the endpoint and the refusals of
  the platform have changed. \<open>emits P m\<close>: every run of \<open>m\<close> does that.
\<close>

definition grows :: "(event \<Rightarrow> bool) \<Rightarrow> world \<Rightarrow> world \<Rightarrow> bool" where
  "grows P w w' =
     (w_http w' = w_http w \<and> w_rejects w' = w_rejects w \<and> w_registry w' = w_registry w
      \<and> (\<exists>evs. w_trace w' = w_trace w @ evs \<and> list_all P evs))"

definition emits :: "(event \<Rightarrow> bool) \<Rightarrow> 'a io \<Rightarrow> bool" where
  "emits P m = (\<forall>w. grows P w (snd (m w)))"

text \<open>The calls one \<open>updateChannel\<close> for guild \<open>g\<close> with the display name \<open>v\<close> may make.\<close>

fun reconcile_event :: "guild_id \<Rightarrow> string \<Rightarrow> event \<Rightarrow> bool" where
  "reconcile_event g v AxiosGet = False"
| "reconcile_event g v (GuildsFetch g') = (g' = g)"
| "reconcile_event g v (MembersFetch g') = (g' = g)"
| "reconcile_event g v (ChannelsFetch g' c) = (g' = g)"
| "reconcile_event g v (ChannelsCreate g' k n p i) =
     (g' = g \<and> (k = GuildCategory \<and> n = group_name \<or> k = GuildVoice \<and> n = v))"
| "reconcile_event g v (SetName g' c n) = (g' = g \<and> n = v)"
| "reconcile_event g v (EditParent g' c p) = (g' = g)"
| "reconcile_event g v (EditPosition g' c i) = (g' = g)"
| "reconcile_event g v (PermissionOverwritesCreate g' c) = (g' = g)"
| "reconcile_event g v (ChannelDelete g' c) = False"
| "reconcile_event g v (RedisGet k) =
     (k = channelGroup_key g \<or> k = priceChannel_key g \<or> k = halveningChannel_key g)"
| "reconcile_event g v (RedisSet k) =
     (k = channelGroup_key g \<or> k = priceChannel_key g \<or> k = halveningChannel_key g)"
| "reconcile_event g v (RedisDel k) =
     (k = channelGroup_key g \<or> k = priceChannel_key g \<or> k = halveningChannel_key g)"

text \<open>The calls a pass over the guilds \<open>gs\<close> may make, given the display names of the
  snapshot.\<close>

fun pass_event :: "guild_id list \<Rightarrow> string list \<Rightarrow> event \<Rightarrow> bool" where
  "pass_event gs names e = (\<exists>g \<in> set gs. \<exists>v \<in> set names. reconcile_event g v e)"

text \<open>A call that changes neither the platform nor the store.\<close>

definition quiet :: "event \<Rightarrow> bool" where
  "quiet e = (\<not> is_mutation e \<and> \<not> is_store_write e)"

text \<open>The guilds of a trace in the order in which they are fetched, a run of fetches of
  one guild counted once.\<close>

fun fetched_guild :: "event \<Rightarrow> guild_id option" where
  "fetched_guild (GuildsFetch g) = Some g"
| "fetched_guild e = None"

definition visit_order :: "event list \<Rightarrow> guild_id list" where
  "visit_order evs = remdups_adj (List.map_filter fetched_guild evs)"

text \<open>From \<open>w\<close> to \<open>w'\<close> the key \<open>k\<close> has been deleted if it held an id, nothing else has
  changed in the store, the guild is still reachable and the registry is as before.\<close>

definition forgets :: "string \<Rightarrow> guild_id \<Rightarrow> world \<Rightarrow> world \<Rightarrow> bool" where
  "forgets k g w w' =
     (w_kv w' = (if truthy_id (w_kv w k) = None then w_kv w else (w_kv w)(k := None))
      \<and> w_guilds w' g \<noteq> None \<and> w_registry w' = w_registry w)"

text \<open>The platform carries out the call \<open>ev\<close> on the channel \<open>cid\<close> of guild \<open>g\<close>: it does not
  refuse it and the channel can be reached.\<close>

definition accepted :: "world \<Rightarrow> guild_id \<Rightarrow> chan_id \<Rightarrow> event \<Rightarrow> bool" where
  "accepted w g cid ev = (\<not> w_rejects w ev \<and> live w g cid \<noteq> None)"

text \<open>The creation of an indicator, which is a voice channel.\<close>

fun is_indicator_create :: "event \<Rightarrow> bool" where
  "is_indicator_create (ChannelsCreate g GuildVoice n p i) = True"
| "is_indicator_create e = False"

abbreviation no_indicator_create :: "event \<Rightarrow> bool" where
  "no_indicator_create \<equiv> \<lambda>e. \<not> is_indicator_create e"

text \<open>\<open>ends_with P c m\<close>: every run of \<open>m\<close> either makes calls that satisfy \<open>P\<close> only, or
  makes such calls and then ends as one of the computations \<open>c grp\<close> does.\<close>

definition ends_with :: "(event \<Rightarrow> bool) \<Rightarrow> (chan_id \<Rightarrow> 'a io) \<Rightarrow> 'a io \<Rightarrow> bool" where
  "ends_with P c m =
     (\<forall>w. grows P w (snd (m w)) \<or> (\<exists>w4 grp. grows P w w4 \<and> m w = c grp w4))"

section \<open>Proofs\<close>

lemmas io_defs = ret_def throw_def andThen_def tryCatch_def emit_def

lemmas store_defs = redis_get_def redis_set_def redis_del_def truthy_id_def
  getChannelGroupId_def setChannelGroupId_def removeChannelGroupId_def
  getPriceChannelId_def setPriceChannelId_def removePriceChannelId_def
  getHalveningChannelId_def setHalveningChannelId_def removeHalveningChannelId_def
  getChannelId_def setChannelId_def removeChannelId_def
  channelGroup_key_def priceChannel_key_def halveningChannel_key_def

lemmas platform_defs = guilds_fetch_def members_fetch_def channels_fetch_def
  channels_create_def put_channel_def channel_call_def channel_setName_def
  channel_edit_parent_def channel_edit_position_def permissionOverwrites_create_def
  channel_delete_def snowflake_def

lemmas world_defs = fresh_world_def denied_world_def bot_def payload_def left_world_def
  category_100_def price_101_def halvening_102_def settled_with_def settled_world_def
  unmanageable_world_def drifted_world_def misplaced_world_def price_rejecting_world_def
  renamed_world_def locked_world_def offline_world_def fieldless_world_def

lemmas reconcile_defs = updateChannel_def updatePriceChannel_def updateHalveningChannel_def
  price_label_def ensureChannelGroupExists_def createChannelGroup_def fetchChannelGroup_def
  fetchStoredChannel_def createChannel_def updateExisting_def fixPermissions_def fixName_def
  fixParent_def fixPosition_def

lemmas registry_defs = getGuilds_def set_registry_def addGuild_def removeGuild_def
  GUILD_KEY_def registered_def

lemmas key_ops = getChannelGroupId_def setChannelGroupId_def removeChannelGroupId_def
  getPriceChannelId_def setPriceChannelId_def removePriceChannelId_def
  getHalveningChannelId_def setHalveningChannelId_def removeHalveningChannelId_def
  getChannelId_def setChannelId_def removeChannelId_def

lemmas channel_ops = channel_setName_def channel_edit_parent_def channel_edit_position_def
  permissionOverwrites_create_def channel_delete_def

subsection \<open>Lists without duplicates\<close>

lemma set_uniq [simp]: "set (uniq xs) = set xs"
  by (induction xs rule: uniq.induct) auto

lemma distinct_uniq [simp]: "distinct (uniq xs)"
  by (induction xs rule: uniq.induct) auto

lemma uniq_distinct: "distinct xs \<Longrightarrow> uniq xs = xs"
proof (induction xs)
  case Nil
  show ?case by simp
next
  case (Cons x xs)
  then have "filter (\<lambda>y. y \<noteq> x) xs = xs" by (auto intro: filter_True)
  with Cons show ?case by simp
qed

lemma uniq_append_member: "distinct xs \<Longrightarrow> g \<in> set xs \<Longrightarrow> uniq (xs @ [g]) = xs"
proof (induction xs)
  case Nil
  then show ?case by simp
next
  case (Cons x xs)
  from Cons.prems have f: "filter (\<lambda>y. y \<noteq> x) xs = xs" by (auto intro: filter_True)
  show ?case
  proof (cases "g = x")
    case True
    with Cons.prems f show ?thesis by (simp add: uniq_distinct)
  next
    case False
    with Cons f show ?thesis by simp
  qed
qed

subsection \<open>Evaluating the formatter\<close>

lemma floor_rat_numeral_div [simp]:
  "\<lfloor>numeral a / numeral b :: rat\<rfloor> = numeral a div numeral b"
  by (metis floor_divide_of_int_eq of_int_numeral)

lemma replicate_numeral_unfold:
  "replicate (numeral k) x = x # replicate (pred_numeral k) x"
  by (simp add: numeral_eq_Suc)

lemmas format_defs = replicate_numeral_unfold formatter_format_def formatNumber_def
  formatNumber_guarded_def currency_en_US_def currency_digits_def compact_en_US_def
  compact_units_def fraction_part_def pad_zeros_def round_half_expand_def digits.simps
  group_from_five_def infinity_sign_def
  group_thousands.simps

lemmas eval_defs = reconcile_defs io_defs store_defs platform_defs world_defs format_defs
  registry_defs getStats_def axios_get_def group_name_def live_def new_events_def

lemma compact_examples:
  "formatNumber (Num 999999) = Inr ''1M''"
  "formatNumber (Num 999) = Inr ''999''"
  "formatNumber (Num 0) = Inr ''0''"
  "formatNumber (Num 1234) = Inr ''1.23K''"
  "formatNumber (Num 209999) = Inr ''210K''"
  by (simp_all add: format_defs)

lemma currency_examples:
  "formatter_format (Num 0) = ''$0.0000''"
  "formatter_format (Num (1 / 8)) = ''$0.1250''"
  "formatter_format (Num 1234567.891) = ''$1,234,567.8910''"
  "formatter_format Null = ''$0.0000''"
  by (simp_all add: format_defs)

text \<open>
  The numeric examples: \<open>formatter.format(1234.5)\<close> is \<open>$1,234.5000\<close> and
  \<open>formatNumber(1500000)\<close> is \<open>1.5M\<close>. The revision of \<open>formatNumber\<close> whose parameter may be
  \<open>null\<close> or \<open>undefined\<close> returns \<open>0\<close> for both.
\<close>

lemma formatter_numeric_examples:
  "formatter_format (Num (12345 / 10)) = ''$1,234.5000''
   \<and> formatNumber (Num 1500000) = Inr ''1.5M''
   \<and> formatNumber (Num 1234000) = Inr ''1.23M''
   \<and> formatNumber Null = Inl TypeError
   \<and> formatNumber Undefined = Inl TypeError
   \<and> formatNumber_guarded (Num 1500000) = Inr ''1.5M''
   \<and> formatNumber_guarded Null = Inr ''0''
   \<and> formatNumber_guarded Undefined = Inr ''0''"
  by (simp add: format_defs)

text \<open>
  C9. \<open>formatNumber\<close> of \<^verbatim>\<open>src/index.ts\<close> throws a TypeError on \<open>null\<close> and on \<open>undefined\<close>
  instead of returning \<open>0\<close>. Both values reach it when the program runs: \<open>getStats\<close> passes a
  \<^verbatim>\<open>blocksUntilHalving\<close> that is \<open>null\<close> or missing on as it is, \<open>updateHalveningChannel\<close>
  rejects on it, and the pass rejects at its log line (lines 154 to 158) before any guild is
  reconciled.
\<close>

theorem formatNumber_rejects_missing:
  "formatNumber Null = Inl TypeError
   \<and> formatNumber Undefined = Inl TypeError
   \<and> fst (getStats fieldless_world) = Inr (Num (12345 / 10), Undefined)
   \<and> fst (updateHalveningChannel g Null w) = Inl TypeError
   \<and> fst (updateHalveningChannel g Undefined w) = Inl TypeError
   \<and> fst (updatePrice (w\<lparr>w_http := Response (Some \<lparr>bigPrice = p, blocksUntilHalving = Null\<rparr>)\<rparr>))
       = Inl TypeError
   \<and> fst (updatePrice (w\<lparr>w_http := Response (Some \<lparr>bigPrice = p, blocksUntilHalving = Undefined\<rparr>)\<rparr>))
       = Inl TypeError
   \<and> fst (updatePrice fieldless_world) = Inl TypeError
   \<and> new_events fieldless_world (snd (updatePrice fieldless_world)) = [AxiosGet, RedisGet GUILD_KEY]"
  by (simp add: updatePrice_def updateHalveningChannel_def formatNumber_def getStats_def
      axios_get_def getGuilds_def redis_get_def io_defs new_events_def world_defs
      split: option.split)

subsection \<open>The metrics fetcher\<close>

text \<open>
  C3. \<open>getStats\<close> of \<^verbatim>\<open>src/index.ts\<close> rejects when the transport fails or the status is
  not 2xx, and passes a missing field on as \<open>undefined\<close> instead of 0.
\<close>

theorem getStats_propagates:
  "fst (getStats (w\<lparr>w_http := TransportFailure\<rparr>)) = Inl NetworkError
   \<and> fst (getStats (w\<lparr>w_http := NonSuccess status\<rparr>)) = Inl (HttpError status)
   \<and> fst (getStats (w\<lparr>w_http := Response (Some \<lparr>bigPrice = Undefined, blocksUntilHalving = b\<rparr>)\<rparr>))
       = Inr (Undefined, b)
   \<and> fst (getStats (w\<lparr>w_http := Response (Some \<lparr>bigPrice = p, blocksUntilHalving = Undefined\<rparr>)\<rparr>))
       = Inr (p, Undefined)"
  by (simp add: getStats_def axios_get_def io_defs)

text \<open>The later revision never rejects and answers every failure with two zeros.\<close>

lemma getStats_guarded_never_rejects:
  "\<exists>p b. fst (getStats_guarded w) = Inr (p, b) \<and> is_number p \<and> is_number b"
  by (auto simp: getStats_guarded_def axios_get_def io_defs is_number_def
      split: http_result.splits option.splits)

lemma getStats_guarded_defaults:
  "fst (getStats_guarded (w\<lparr>w_http := TransportFailure\<rparr>)) = Inr (Num 0, Num 0)
   \<and> fst (getStats_guarded (w\<lparr>w_http := NonSuccess status\<rparr>)) = Inr (Num 0, Num 0)
   \<and> fst (getStats_guarded (w\<lparr>w_http := Response (Some \<lparr>bigPrice = Undefined, blocksUntilHalving = b\<rparr>)\<rparr>))
       = Inr (Num 0, Num 0)
   \<and> fst (getStats_guarded (w\<lparr>w_http := Response (Some \<lparr>bigPrice = p, blocksUntilHalving = Undefined\<rparr>)\<rparr>))
       = Inr (Num 0, Num 0)"
  by (simp add: getStats_guarded_def axios_get_def io_defs is_number_def)

subsection \<open>The grouping container\<close>

lemma createChannelGroup_persisted:
  "createChannelGroup guildId w = (Inr g, w') \<Longrightarrow>
     w_kv w' (channelGroup_key guildId) = Some g \<and> live w' guildId g \<noteq> None
     \<and> g = snowflake (w_next_id w)"
  unfolding createChannelGroup_def
  by (auto simp: io_defs store_defs platform_defs live_def Let_def
      split: option.splits sum.splits if_splits prod.splits)

text \<open>
  C10. Whenever \<open>ensureChannelGroupExists\<close> resolves to an id \<open>g\<close>, the store's group entry of
  the guild is \<open>g\<close> in the world it leaves and \<open>g\<close> is a live channel there; and \<open>g\<close> is
  either the id that was stored before, whose channel the function has fetched, or the id of
  the channel the platform has just created.
\<close>

theorem ensureChannelGroupExists_persisted:
  "ensureChannelGroupExists guildId w = (Inr g, w') \<Longrightarrow>
     w_kv w' (channelGroup_key guildId) = Some g \<and> live w' guildId g \<noteq> None
     \<and> ((w_kv w (channelGroup_key guildId) = Some g \<and> live w guildId g \<noteq> None)
        \<or> g = snowflake (w_next_id w))"
  unfolding ensureChannelGroupExists_def
  by (auto simp: io_defs store_defs guilds_fetch_def channels_fetch_def live_def
      split: option.splits sum.splits if_splits prod.splits
      dest!: createChannelGroup_persisted)

theorem ensureChannelGroupExists_persisted_witness:
  "fst (ensureChannelGroupExists ''g1'' fresh_world) = Inr ''100''
   \<and> w_kv (snd (ensureChannelGroupExists ''g1'' fresh_world)) (channelGroup_key ''g1'')
       = Some ''100''"
proof -
  have res: "fst (ensureChannelGroupExists ''g1'' fresh_world) = Inr ''100''"
    by (simp add: ensureChannelGroupExists_def createChannelGroup_def io_defs store_defs
        platform_defs world_defs digits.simps)
  have run: "ensureChannelGroupExists ''g1'' fresh_world
      = (Inr ''100'', snd (ensureChannelGroupExists ''g1'' fresh_world))"
    using res by (simp add: prod_eq_iff)
  from ensureChannelGroupExists_persisted [OF run] res show ?thesis
    by blast
qed

subsection \<open>The permission check\<close>

text \<open>
  C2. When the bot's membership can be fetched and it lacks the permission to manage
  channels, or its highest role has position 0, \<open>updateChannel\<close> returns through one of the
  three exits of the permission check. It has made two calls, both reads of the platform
  (the guild and the member): no mutating call and no access to the store, and the store
  and the platform's channels are as before.
\<close>

theorem updateChannel_permission_denied:
  assumes "w_guilds w guildId = Some g"
    and "g_member g = Some m"
    and "\<not> has_ManageChannels m \<or> highest_role_position m = 0"
  shows "(\<exists>d. fst (updateChannel guildId channelType value position w) = Inr d
            \<and> permission_denied d)
     \<and> snd (updateChannel guildId channelType value position w)
         = w\<lparr>w_trace := w_trace w @ [GuildsFetch guildId, MembersFetch guildId]\<rparr>
     \<and> filter is_mutation
         (new_events w (snd (updateChannel guildId channelType value position w))) = []
     \<and> filter is_store_access
         (new_events w (snd (updateChannel guildId channelType value position w))) = []"
  using assms unfolding updateChannel_def
  by (auto simp: io_defs guilds_fetch_def members_fetch_def new_events_def)

theorem updateChannel_permission_denied_witness:
  "fst (updateChannel ''g1'' Price ''$BIG: $1.0000'' 0 denied_world) = Inr MissingManageChannels
   \<and> permission_denied MissingManageChannels
   \<and> new_events denied_world (snd (updateChannel ''g1'' Price ''$BIG: $1.0000'' 0 denied_world))
       = [GuildsFetch ''g1'', MembersFetch ''g1'']"
proof -
  have g: "w_guilds denied_world ''g1'' = Some \<lparr>g_member = Some (bot\<lparr>has_ManageChannels := False\<rparr>),
        g_channels = Map.empty, g_manageable_new = True\<rparr>"
    by (simp add: world_defs)
  have m: "g_member \<lparr>g_member = Some (bot\<lparr>has_ManageChannels := False\<rparr>),
        g_channels = Map.empty, g_manageable_new = True\<rparr> = Some (bot\<lparr>has_ManageChannels := False\<rparr>)"
    by simp
  have d: "\<not> has_ManageChannels (bot\<lparr>has_ManageChannels := False\<rparr>)
      \<or> highest_role_position (bot\<lparr>has_ManageChannels := False\<rparr>) = 0"
    by simp
  have r: "fst (updateChannel ''g1'' Price ''$BIG: $1.0000'' 0 denied_world)
      = Inr MissingManageChannels"
    by (simp add: updateChannel_def io_defs guilds_fetch_def members_fetch_def world_defs)
  from updateChannel_permission_denied [OF g m d, of Price "''$BIG: $1.0000''" 0] r
  show ?thesis
    by (simp add: new_events_def)
qed

subsection \<open>The tenant-leave handler\<close>

text \<open>
  C7. When the guild can no longer be fetched, the handler of \<open>guildDelete\<close> of
  \<^verbatim>\<open>src/index.ts\<close> removes the guild from the registry and then rejects with the error of
  the fetch; the three mapping entries are still in the store.
\<close>

theorem guildDelete_guild_gone:
  "fst (guildDelete ''g1'' left_world) = Inl UnknownGuild
   \<and> w_registry (snd (guildDelete ''g1'' left_world)) = Some []
   \<and> w_kv (snd (guildDelete ''g1'' left_world)) (channelGroup_key ''g1'') = Some ''100''
   \<and> w_kv (snd (guildDelete ''g1'' left_world)) (priceChannel_key ''g1'') = Some ''101''
   \<and> w_kv (snd (guildDelete ''g1'' left_world)) (halveningChannel_key ''g1'') = Some ''102''"
  by (simp add: guildDelete_def removeGuild_def getGuilds_def set_registry_def
      removePriceChannel_def removeHalveningChannel_def removeChannelGroup_def
      io_defs store_defs platform_defs world_defs)

text \<open>The later revision clears the three entries in that world.\<close>

lemma guildDelete_guarded_guild_gone:
  "fst (guildDelete_guarded ''g1'' left_world) = Inr ()
   \<and> w_registry (snd (guildDelete_guarded ''g1'' left_world)) = Some []
   \<and> w_kv (snd (guildDelete_guarded ''g1'' left_world)) (channelGroup_key ''g1'') = None
   \<and> w_kv (snd (guildDelete_guarded ''g1'' left_world)) (priceChannel_key ''g1'') = None
   \<and> w_kv (snd (guildDelete_guarded ''g1'' left_world)) (halveningChannel_key ''g1'') = None"
  by (simp add: guildDelete_guarded_def removeGuild_def getGuilds_def set_registry_def
      removePriceChannel_guarded_def removeHalveningChannel_guarded_def
      removeChannelGroup_guarded_def io_defs store_defs platform_defs world_defs)

text \<open>While the guild can be fetched, \<^verbatim>\<open>src/index.ts\<close> does what the property asks for,
  whether the channels are still there or not and whether the platform deletes them or
  refuses: the guild leaves the registry and none of the three keys holds an id.\<close>

lemma delete_if_present_keeps:
  "w_kv (snd (delete_if_present g cid w)) = w_kv w
   \<and> (w_guilds w g' \<noteq> None \<longrightarrow> w_guilds (snd (delete_if_present g cid w)) g' \<noteq> None)
   \<and> w_registry (snd (delete_if_present g cid w)) = w_registry w"
  by (auto simp: delete_if_present_def channels_fetch_def channel_delete_def channel_call_def
      put_channel_def io_defs split: option.splits)

lemma delete_if_present_resolves: "fst (delete_if_present g cid w) = Inr ()"
  by (auto simp: delete_if_present_def tryCatch_def ret_def split: prod.splits sum.splits)

lemma removePriceChannel_forgets:
  assumes "w_guilds w g \<noteq> None"
  shows "fst (removePriceChannel g w) = Inr ()
     \<and> forgets (priceChannel_key g) g w (snd (removePriceChannel g w))"
proof -
  have 1: "fst (removePriceChannel g w) = Inr ()"
    by (auto simp: removePriceChannel_def tryCatch_def ret_def split: prod.splits sum.splits)
  obtain gd where gd: "w_guilds w g = Some gd" using assms by auto
  let ?w1 = "w\<lparr>w_trace := w_trace w @ [GuildsFetch g, RedisGet (priceChannel_key g)]\<rparr>"
  show ?thesis
  proof (cases "truthy_id (w_kv w (priceChannel_key g))")
    case None
    with gd 1 show ?thesis
      by (simp add: forgets_def removePriceChannel_def guilds_fetch_def getPriceChannelId_def
          redis_get_def io_defs)
  next
    case (Some cid)
    have run: "snd (removePriceChannel g w)
        = snd (redis_del (priceChannel_key g) (snd (delete_if_present g cid ?w1)))"
      using gd Some delete_if_present_resolves [of g cid ?w1]
      by (cases "delete_if_present g cid ?w1")
         (simp add: removePriceChannel_def guilds_fetch_def getPriceChannelId_def
          removePriceChannelId_def redis_get_def redis_del_def io_defs)
    from delete_if_present_keeps [of g cid ?w1 g] gd Some 1 show ?thesis
      by (simp add: forgets_def run redis_del_def emit_def)
  qed
qed

lemma removeHalveningChannel_forgets:
  assumes "w_guilds w g \<noteq> None"
  shows "fst (removeHalveningChannel g w) = Inr ()
     \<and> forgets (halveningChannel_key g) g w (snd (removeHalveningChannel g w))"
proof -
  have 1: "fst (removeHalveningChannel g w) = Inr ()"
    by (auto simp: removeHalveningChannel_def tryCatch_def ret_def split: prod.splits sum.splits)
  obtain gd where gd: "w_guilds w g = Some gd" using assms by auto
  let ?w1 = "w\<lparr>w_trace := w_trace w @ [GuildsFetch g, RedisGet (halveningChannel_key g)]\<rparr>"
  show ?thesis
  proof (cases "truthy_id (w_kv w (halveningChannel_key g))")
    case None
    with gd 1 show ?thesis
      by (simp add: forgets_def removeHalveningChannel_def guilds_fetch_def
          getHalveningChannelId_def redis_get_def io_defs)
  next
    case (Some cid)
    have run: "snd (removeHalveningChannel g w)
        = snd (redis_del (halveningChannel_key g) (snd (delete_if_present g cid ?w1)))"
      using gd Some delete_if_present_resolves [of g cid ?w1]
      by (cases "delete_if_present g cid ?w1")
         (simp add: removeHalveningChannel_def guilds_fetch_def getHalveningChannelId_def
          removeHalveningChannelId_def redis_get_def redis_del_def io_defs)
    from delete_if_present_keeps [of g cid ?w1 g] gd Some 1 show ?thesis
      by (simp add: forgets_def run redis_del_def emit_def)
  qed
qed

lemma removeChannelGroup_forgets:
  assumes "w_guilds w g \<noteq> None"
  shows "fst (removeChannelGroup g w) = Inr ()
     \<and> forgets (channelGroup_key g) g w (snd (removeChannelGroup g w))"
proof -
  obtain gd where gd: "w_guilds w g = Some gd" using assms by auto
  let ?w1 = "w\<lparr>w_trace := w_trace w @ [GuildsFetch g, RedisGet (channelGroup_key g)]\<rparr>"
  show ?thesis
  proof (cases "truthy_id (w_kv w (channelGroup_key g))")
    case None
    with gd show ?thesis
      by (simp add: forgets_def removeChannelGroup_def guilds_fetch_def getChannelGroupId_def
          redis_get_def io_defs)
  next
    case (Some cid)
    have run: "removeChannelGroup g w
        = redis_del (channelGroup_key g) (snd (delete_if_present g cid ?w1))"
      using gd Some delete_if_present_resolves [of g cid ?w1]
      by (cases "delete_if_present g cid ?w1")
         (simp add: removeChannelGroup_def guilds_fetch_def getChannelGroupId_def
          removeChannelGroupId_def redis_get_def redis_del_def io_defs)
    from delete_if_present_keeps [of g cid ?w1 g] gd Some show ?thesis
      by (simp add: forgets_def run redis_del_def emit_def)
  qed
qed

lemma removeGuild_unregisters:
  "(\<exists>r. fst (removeGuild g w) = Inr r)
   \<and> g \<notin> set (registered (snd (removeGuild g w)))
   \<and> w_kv (snd (removeGuild g w)) = w_kv w \<and> w_guilds (snd (removeGuild g w)) = w_guilds w"
  by (auto simp: removeGuild_def getGuilds_def set_registry_def registered_def io_defs
      split: option.splits)

lemma guildDelete_clears_when_reachable:
  assumes "w_guilds w g \<noteq> None"
  shows "fst (guildDelete g w) = Inr ()
     \<and> g \<notin> set (registered (snd (guildDelete g w)))
     \<and> truthy_id (w_kv (snd (guildDelete g w)) (channelGroup_key g)) = None
     \<and> truthy_id (w_kv (snd (guildDelete g w)) (priceChannel_key g)) = None
     \<and> truthy_id (w_kv (snd (guildDelete g w)) (halveningChannel_key g)) = None"
proof -
  obtain r w1 where a: "removeGuild g w = (Inr r, w1)"
    using removeGuild_unregisters [of g w] by (cases "removeGuild g w") auto
  with removeGuild_unregisters [of g w] assms
  have w1: "g \<notin> set (registered w1)" "w_kv w1 = w_kv w" "w_guilds w1 g \<noteq> None"
    by auto
  obtain w2 where b: "removePriceChannel g w1 = (Inr (), w2)"
    using removePriceChannel_forgets [OF w1(3)] by (cases "removePriceChannel g w1") auto
  with removePriceChannel_forgets [OF w1(3)]
  have w2: "forgets (priceChannel_key g) g w1 w2" by simp
  then have g2: "w_guilds w2 g \<noteq> None" by (simp add: forgets_def)
  obtain w3 where c: "removeHalveningChannel g w2 = (Inr (), w3)"
    using removeHalveningChannel_forgets [OF g2] by (cases "removeHalveningChannel g w2") auto
  with removeHalveningChannel_forgets [OF g2]
  have w3: "forgets (halveningChannel_key g) g w2 w3" by simp
  then have g3: "w_guilds w3 g \<noteq> None" by (simp add: forgets_def)
  obtain w4 where d: "removeChannelGroup g w3 = (Inr (), w4)"
    using removeChannelGroup_forgets [OF g3] by (cases "removeChannelGroup g w3") auto
  with removeChannelGroup_forgets [OF g3]
  have w4: "forgets (channelGroup_key g) g w3 w4" by simp
  have run: "guildDelete g w = (Inr (), w4)"
    using a b c d by (simp add: guildDelete_def andThen_def)
  from w1 w2 w3 w4 show ?thesis
    unfolding run
    by (auto simp: forgets_def registered_def truthy_id_def split: if_splits option.splits)
qed

subsection \<open>Rules for the calls a run makes\<close>

lemma grows_refl [simp]: "grows P w w"
  by (simp add: grows_def)

lemma grows_trans: "grows P w w1 \<Longrightarrow> grows P w1 w2 \<Longrightarrow> grows P w w2"
  by (auto simp: grows_def)

lemma grows_mono: "grows P w w' \<Longrightarrow> (\<And>e. P e \<Longrightarrow> Q e) \<Longrightarrow> grows Q w w'"
  by (auto simp: grows_def list_all_iff)

lemma emits_mono: "emits P m \<Longrightarrow> (\<And>e. P e \<Longrightarrow> Q e) \<Longrightarrow> emits Q m"
  unfolding emits_def by (blast intro: grows_mono)

lemma emits_ret: "emits P (ret x)"
  by (simp add: emits_def ret_def)

lemma emits_throw: "emits P (throw e)"
  by (simp add: emits_def throw_def)

lemma emits_andThen:
  assumes "emits P m" and "\<And>x. emits P (f x)"
  shows "emits P (andThen m f)"
  unfolding emits_def
proof
  fix w
  obtain r w1 where m: "m w = (r, w1)" by (cases "m w")
  from assms(1) m have g1: "grows P w w1" by (auto simp: emits_def dest: spec [of _ w])
  show "grows P w (snd (andThen m f w))"
  proof (cases r)
    case (Inl e)
    with m g1 show ?thesis by (simp add: andThen_def)
  next
    case (Inr x)
    from assms(2) [of x] have "grows P w1 (snd (f x w1))" by (simp add: emits_def)
    with g1 m Inr show ?thesis by (auto simp: andThen_def intro: grows_trans)
  qed
qed

lemma emits_tryCatch:
  assumes "emits P m" and "\<And>e. emits P (h e)"
  shows "emits P (tryCatch m h)"
  unfolding emits_def
proof
  fix w
  obtain r w1 where m: "m w = (r, w1)" by (cases "m w")
  from assms(1) m have g1: "grows P w w1" by (auto simp: emits_def dest: spec [of _ w])
  show "grows P w (snd (tryCatch m h w))"
  proof (cases r)
    case (Inr x)
    with m g1 show ?thesis by (simp add: tryCatch_def)
  next
    case (Inl e)
    from assms(2) [of e] have "grows P w1 (snd (h e w1))" by (simp add: emits_def)
    with g1 m Inl show ?thesis by (auto simp: tryCatch_def intro: grows_trans)
  qed
qed

lemma emits_guilds_fetch: "P (GuildsFetch g) \<Longrightarrow> emits P (guilds_fetch g)"
  by (simp add: emits_def grows_def guilds_fetch_def emit_def split: option.splits)

lemma emits_members_fetch: "P (MembersFetch g) \<Longrightarrow> emits P (members_fetch g)"
  by (simp add: emits_def grows_def members_fetch_def emit_def split: option.splits)

lemma emits_channels_fetch: "P (ChannelsFetch g c) \<Longrightarrow> emits P (channels_fetch g c)"
  by (simp add: emits_def grows_def channels_fetch_def emit_def split: option.splits)

lemma emits_channels_create:
  "P (ChannelsCreate g k n p i) \<Longrightarrow> emits P (channels_create g k n p i)"
  by (simp add: emits_def grows_def channels_create_def put_channel_def emit_def Let_def
      split: option.splits)

lemma emits_channel_call: "P ev \<Longrightarrow> emits P (channel_call ev g c f)"
  by (simp add: emits_def grows_def channel_call_def put_channel_def emit_def
      split: option.splits)

lemma emits_redis_get: "P (RedisGet k) \<Longrightarrow> emits P (redis_get k)"
  by (simp add: emits_def grows_def redis_get_def emit_def)

lemma emits_redis_set: "P (RedisSet k) \<Longrightarrow> emits P (redis_set k v)"
  by (simp add: emits_def grows_def redis_set_def emit_def)

lemma emits_redis_del: "P (RedisDel k) \<Longrightarrow> emits P (redis_del k)"
  by (simp add: emits_def grows_def redis_del_def emit_def)

lemmas emits_intros = emits_ret emits_throw emits_andThen emits_tryCatch emits_guilds_fetch
  emits_members_fetch emits_channels_fetch emits_channels_create emits_channel_call
  emits_redis_get emits_redis_set emits_redis_del

lemma emits_createChannelGroup: "emits (reconcile_event g v) (createChannelGroup g)"
  unfolding createChannelGroup_def key_ops
  by (intro emits_intros) simp_all

lemma emits_ensureChannelGroupExists: "emits (reconcile_event g v) (ensureChannelGroupExists g)"
  unfolding ensureChannelGroupExists_def key_ops
  by (auto intro!: emits_intros emits_createChannelGroup split: option.split)

lemma emits_fetchChannelGroup: "emits (reconcile_event g v) (fetchChannelGroup g c)"
  unfolding fetchChannelGroup_def key_ops
  by (auto intro!: emits_intros emits_createChannelGroup split: option.split)

lemma emits_fetchStoredChannel: "emits (reconcile_event g v) (fetchStoredChannel g ct)"
  unfolding fetchStoredChannel_def key_ops
  by (auto intro!: emits_intros split: option.split channel_type.split)

lemma emits_createChannel: "emits (reconcile_event g v) (createChannel g ct v grp pos)"
  unfolding createChannel_def key_ops
  by (auto intro!: emits_intros split: option.split channel_type.split)

lemma emits_updateExisting: "emits (reconcile_event g v) (updateExisting g cid c v grp pos)"
  unfolding updateExisting_def fixPermissions_def fixName_def fixParent_def fixPosition_def
    channel_ops
  by (auto intro!: emits_intros)

lemma emits_updateChannel: "emits (reconcile_event g v) (updateChannel g ct v pos)"
  unfolding updateChannel_def
  by (auto intro!: emits_intros emits_ensureChannelGroupExists emits_fetchChannelGroup
      emits_fetchStoredChannel emits_createChannel emits_updateExisting split: option.split)

lemma new_events_emit [simp]: "new_events w (emit e w) = [e]"
  by (simp add: new_events_def emit_def)

lemma grows_new_events:
  "grows P w w1 \<Longrightarrow> grows Q w1 w2 \<Longrightarrow> new_events w w2 = new_events w w1 @ new_events w1 w2"
  by (auto simp: grows_def new_events_def)

lemma grows_events: "grows P w w' \<Longrightarrow> list_all P (new_events w w')"
  by (auto simp: grows_def new_events_def)

lemma updateChannel_resolves: "\<exists>d. fst (updateChannel g ct v pos w) = Inr d"
  unfolding updateChannel_def tryCatch_def ret_def
  by (auto split: prod.splits sum.splits)

lemma starts_with_guilds_fetch:
  assumes "\<And>x. emits P (F x)" and "\<And>e. emits P (H e)"
  shows "\<exists>evs. w_trace (snd (tryCatch (andThen (guilds_fetch g) F) H w))
           = w_trace w @ GuildsFetch g # evs"
proof -
  have "snd (guilds_fetch g w) = emit (GuildsFetch g) w"
    by (simp add: guilds_fetch_def split: option.splits)
  then obtain r where r: "guilds_fetch g w = (r, emit (GuildsFetch g) w)"
    by (cases "guilds_fetch g w") auto
  show ?thesis
  proof (cases r)
    case (Inl e)
    from assms(2) [of e] have "grows P (emit (GuildsFetch g) w) (snd (H e (emit (GuildsFetch g) w)))"
      by (simp add: emits_def)
    with r Inl show ?thesis
      by (auto simp: tryCatch_def andThen_def grows_def emit_def)
  next
    case (Inr x)
    have "emits P (tryCatch (F x) H)"
      by (intro emits_tryCatch assms)
    then have "grows P (emit (GuildsFetch g) w) (snd (tryCatch (F x) H (emit (GuildsFetch g) w)))"
      by (simp add: emits_def)
    moreover have "tryCatch (andThen (guilds_fetch g) F) H w
        = tryCatch (F x) H (emit (GuildsFetch g) w)"
      using r Inr by (simp add: tryCatch_def andThen_def)
    ultimately show ?thesis
      by (auto simp: grows_def emit_def)
  qed
qed

lemma updateChannel_starts:
  "\<exists>evs. w_trace (snd (updateChannel g ct v pos w)) = w_trace w @ GuildsFetch g # evs"
  unfolding updateChannel_def
  by (rule starts_with_guilds_fetch [where P = "reconcile_event g v"])
     (auto intro!: emits_intros emits_ensureChannelGroupExists emits_fetchChannelGroup
      emits_fetchStoredChannel emits_createChannel emits_updateExisting split: option.split)

lemma emits_updatePriceChannel:
  "emits (reconcile_event g (price_label price)) (updatePriceChannel g price)"
  unfolding updatePriceChannel_def by (rule emits_updateChannel)

lemma emits_updateHalveningChannel:
  "emits (\<lambda>e. \<exists>v \<in> set (snapshot_labels price blocks). reconcile_event g v e)
     (updateHalveningChannel g blocks)"
  unfolding updateHalveningChannel_def
  by (auto simp: snapshot_labels_def split: sum.split
      intro!: emits_throw emits_mono [OF emits_updateChannel])

lemma emits_updateGuilds:
  "emits (pass_event gs (snapshot_labels price blocks)) (updateGuilds gs price blocks)"
proof (induction gs)
  case Nil
  show ?case by (simp add: emits_ret)
next
  case (Cons g gs)
  have 1: "emits (pass_event (g # gs) (snapshot_labels price blocks)) (updatePriceChannel g price)"
    by (rule emits_mono [OF emits_updatePriceChannel]) (auto simp: snapshot_labels_def)
  have 2: "emits (pass_event (g # gs) (snapshot_labels price blocks))
      (updateHalveningChannel g blocks)"
    by (rule emits_mono [OF emits_updateHalveningChannel]) auto
  have 3: "emits (pass_event (g # gs) (snapshot_labels price blocks))
      (updateGuilds gs price blocks)"
    by (rule emits_mono [OF Cons.IH]) auto
  show ?case
    by (simp del: pass_event.simps) (intro emits_andThen 1 2 3)
qed

lemma guild_key_not_group: "GUILD_KEY \<noteq> channelGroup_key g"
proof
  assume "GUILD_KEY = channelGroup_key g"
  then have "set GUILD_KEY = set (channelGroup_key g)" by (rule arg_cong)
  moreover have "CHR '':'' \<in> set (channelGroup_key g)" by (simp add: channelGroup_key_def)
  ultimately have "CHR '':'' \<in> set GUILD_KEY" by blast
  then show False by (simp add: GUILD_KEY_def)
qed

lemma guild_key_not_price: "GUILD_KEY \<noteq> priceChannel_key g"
proof
  assume "GUILD_KEY = priceChannel_key g"
  then have "set GUILD_KEY = set (priceChannel_key g)" by (rule arg_cong)
  moreover have "CHR '':'' \<in> set (priceChannel_key g)" by (simp add: priceChannel_key_def)
  ultimately have "CHR '':'' \<in> set GUILD_KEY" by blast
  then show False by (simp add: GUILD_KEY_def)
qed

lemma guild_key_not_halvening: "GUILD_KEY \<noteq> halveningChannel_key g"
proof
  assume "GUILD_KEY = halveningChannel_key g"
  then have "set GUILD_KEY = set (halveningChannel_key g)" by (rule arg_cong)
  moreover have "CHR '':'' \<in> set (halveningChannel_key g)" by (simp add: halveningChannel_key_def)
  ultimately have "CHR '':'' \<in> set GUILD_KEY" by blast
  then show False by (simp add: GUILD_KEY_def)
qed

lemma reconcile_event_not_registry:
  "reconcile_event g v e \<Longrightarrow> e \<noteq> RedisSet GUILD_KEY \<and> e \<noteq> RedisGet GUILD_KEY \<and> e \<noteq> AxiosGet"
  using guild_key_not_group [of g] guild_key_not_price [of g] guild_key_not_halvening [of g]
  by (cases e) auto

lemma reconcile_event_name:
  "reconcile_event g v e \<Longrightarrow> written_name e = Some n \<Longrightarrow> n = v"
  by (cases e rule: written_name.cases) auto

subsection \<open>Drift repair of a live indicator\<close>

lemma channel_call_accepted:
  "accepted w g cid ev \<Longrightarrow> \<exists>w'. channel_call ev g cid f w = (Inr (), w')
      \<and> w_trace w' = w_trace w @ [ev] \<and> w_rejects w' = w_rejects w
      \<and> (f = (\<lambda>c. Some (Some (h c))) \<longrightarrow> live w' g cid \<noteq> None)"
  by (auto simp: accepted_def channel_call_def put_channel_def live_def emit_def
      split: option.splits)

lemma channel_call_refused:
  "\<not> accepted w g cid ev \<Longrightarrow> \<exists>e. channel_call ev g cid f w = (Inl e, emit ev w)"
  by (auto simp: accepted_def channel_call_def live_def split: option.splits)

lemma channel_call_trace:
  "w_trace (snd (channel_call ev g cid f w)) = w_trace w @ [ev]"
  by (auto simp: channel_call_def put_channel_def emit_def split: option.splits)

lemma fixPermissions_ok:
  assumes "ch_manageable c \<or> accepted w g cid (PermissionOverwritesCreate g cid)"
  shows "\<exists>w'. fixPermissions g cid c w = (Inr True, w')
     \<and> w_trace w' = w_trace w
         @ (if ch_manageable c then [] else [PermissionOverwritesCreate g cid])
     \<and> w_rejects w' = w_rejects w
     \<and> (live w' g cid \<noteq> None) = (live w g cid \<noteq> None)"
proof (cases "ch_manageable c")
  case True
  then show ?thesis by (simp add: fixPermissions_def ret_def)
next
  case False
  with assms have a: "accepted w g cid (PermissionOverwritesCreate g cid)" by simp
  from channel_call_accepted [OF a, of "\<lambda>c. Some (Some c)" "\<lambda>c. c"] a False
  show ?thesis
    by (auto simp: fixPermissions_def permissionOverwrites_create_def io_defs accepted_def)
qed

lemma fixPermissions_fail:
  assumes "\<not> ch_manageable c" and "\<not> accepted w g cid (PermissionOverwritesCreate g cid)"
  shows "fixPermissions g cid c w = (Inr False, emit (PermissionOverwritesCreate g cid) w)"
  using channel_call_refused [OF assms(2), of "\<lambda>c. Some (Some c)"] assms(1)
  by (auto simp: fixPermissions_def permissionOverwrites_create_def andThen_def
      tryCatch_def ret_def)

lemma fixName_ok:
  assumes "ch_name c = v \<or> accepted w g cid (SetName g cid v)"
  shows "\<exists>w'. fixName g cid c v w = (Inr True, w')
     \<and> w_trace w' = w_trace w @ (if ch_name c \<noteq> v then [SetName g cid v] else [])"
proof (cases "ch_name c = v")
  case True
  then show ?thesis by (simp add: fixName_def ret_def)
next
  case False
  with assms have a: "accepted w g cid (SetName g cid v)" by simp
  from channel_call_accepted [OF a, of "\<lambda>c. Some (Some (c\<lparr>ch_name := v\<rparr>))"
      "\<lambda>c. c\<lparr>ch_name := v\<rparr>"] False
  show ?thesis
    by (auto simp: fixName_def channel_setName_def io_defs)
qed

lemma fixName_fail:
  assumes "ch_name c \<noteq> v" and "\<not> accepted w g cid (SetName g cid v)"
  shows "fixName g cid c v w = (Inr False, emit (SetName g cid v) w)"
  using channel_call_refused [OF assms(2), of "\<lambda>c. Some (Some (c\<lparr>ch_name := v\<rparr>))"] assms(1)
  by (auto simp: fixName_def channel_setName_def andThen_def tryCatch_def ret_def)

lemma fixParent_run:
  "fst (fixParent g cid c grp w) = Inr ()
   \<and> w_trace (snd (fixParent g cid c grp w))
       = w_trace w @ (if ch_parentId c \<noteq> Some grp then [EditParent g cid grp] else [])"
  using channel_call_trace [of "EditParent g cid grp" g cid
      "\<lambda>c. Some (Some (c\<lparr>ch_parentId := Some grp\<rparr>))" w]
  by (auto simp: fixParent_def channel_edit_parent_def tryCatch_def ret_def
      split: prod.splits sum.splits)

lemma fixPosition_run:
  "fst (fixPosition g cid c pos w) = Inr ()
   \<and> w_trace (snd (fixPosition g cid c pos w))
       = w_trace w @ (if ch_position c \<noteq> pos then [EditPosition g cid pos] else [])"
  using channel_call_trace [of "EditPosition g cid pos" g cid
      "\<lambda>c. Some (Some (c\<lparr>ch_position := pos\<rparr>))" w]
  by (auto simp: fixPosition_def channel_edit_position_def tryCatch_def ret_def
      split: prod.splits sum.splits)

text \<open>
  C5. The repair of a live indicator runs its steps in order: the permission overwrite
  (only for a channel reported as not manageable), the rename (only when the name differs),
  the move to the category (only when the parent differs) and the repositioning (only when
  the position differs). A refused permission overwrite and a refused rename each end the
  repair at once (lines 449 to 453 and 466 to 472): neither the parent nor the position is
  looked at. In every other run, whether the name was right or the rename was carried out,
  whether the channel was manageable or the overwrite was carried out, the parent check and
  the position check both run, each on its own: the calls made are the move if the parent
  differs, followed by the repositioning if the position differs, whether or not the
  platform carries the move out.
\<close>

theorem drift_repair_steps:
  "(\<not> ch_manageable c \<and> \<not> accepted w g cid (PermissionOverwritesCreate g cid) \<longrightarrow>
        fst (updateExisting g cid c v grp pos w) = Inr PermissionFixFailed
      \<and> new_events w (snd (updateExisting g cid c v grp pos w))
          = [PermissionOverwritesCreate g cid])
   \<and> ((ch_manageable c \<or> accepted w g cid (PermissionOverwritesCreate g cid))
        \<and> ch_name c \<noteq> v \<and> \<not> accepted w g cid (SetName g cid v) \<longrightarrow>
        fst (updateExisting g cid c v grp pos w) = Inr NameUpdateFailed
      \<and> new_events w (snd (updateExisting g cid c v grp pos w))
          = (if ch_manageable c then [] else [PermissionOverwritesCreate g cid])
            @ [SetName g cid v])
   \<and> ((ch_manageable c \<or> accepted w g cid (PermissionOverwritesCreate g cid))
        \<and> (ch_name c = v \<or> accepted w g cid (SetName g cid v)) \<longrightarrow>
        fst (updateExisting g cid c v grp pos w) = Inr Updated
      \<and> new_events w (snd (updateExisting g cid c v grp pos w))
          = (if ch_manageable c then [] else [PermissionOverwritesCreate g cid])
            @ (if ch_name c \<noteq> v then [SetName g cid v] else [])
            @ (if ch_parentId c \<noteq> Some grp then [EditParent g cid grp] else [])
            @ (if ch_position c \<noteq> pos then [EditPosition g cid pos] else []))"
proof (intro conjI impI)
  assume "\<not> ch_manageable c \<and> \<not> accepted w g cid (PermissionOverwritesCreate g cid)"
  then have "fixPermissions g cid c w = (Inr False, emit (PermissionOverwritesCreate g cid) w)"
    by (simp add: fixPermissions_fail)
  then have "updateExisting g cid c v grp pos w
      = (Inr PermissionFixFailed, emit (PermissionOverwritesCreate g cid) w)"
    by (simp add: updateExisting_def andThen_def tryCatch_def ret_def)
  then show "fst (updateExisting g cid c v grp pos w) = Inr PermissionFixFailed"
    and "new_events w (snd (updateExisting g cid c v grp pos w))
          = [PermissionOverwritesCreate g cid]"
    by (simp_all add: new_events_def emit_def)
next
  assume a: "(ch_manageable c \<or> accepted w g cid (PermissionOverwritesCreate g cid))
        \<and> ch_name c \<noteq> v \<and> \<not> accepted w g cid (SetName g cid v)"
  then obtain w1 where p: "fixPermissions g cid c w = (Inr True, w1)"
    and t1: "w_trace w1 = w_trace w
         @ (if ch_manageable c then [] else [PermissionOverwritesCreate g cid])"
    and r1: "w_rejects w1 = w_rejects w"
    and l1: "(live w1 g cid \<noteq> None) = (live w g cid \<noteq> None)"
    using fixPermissions_ok [of c w g cid] by blast
  from a r1 l1 have "\<not> accepted w1 g cid (SetName g cid v)"
    by (simp add: accepted_def)
  with a have "fixName g cid c v w1 = (Inr False, emit (SetName g cid v) w1)"
    by (simp add: fixName_fail)
  with p have "updateExisting g cid c v grp pos w
      = (Inr NameUpdateFailed, emit (SetName g cid v) w1)"
    by (simp add: updateExisting_def andThen_def tryCatch_def ret_def)
  with t1 show "fst (updateExisting g cid c v grp pos w) = Inr NameUpdateFailed"
    and "new_events w (snd (updateExisting g cid c v grp pos w))
          = (if ch_manageable c then [] else [PermissionOverwritesCreate g cid])
            @ [SetName g cid v]"
    by (simp_all add: new_events_def emit_def)
next
  assume a: "(ch_manageable c \<or> accepted w g cid (PermissionOverwritesCreate g cid))
        \<and> (ch_name c = v \<or> accepted w g cid (SetName g cid v))"
  then obtain w1 where p: "fixPermissions g cid c w = (Inr True, w1)"
    and t1: "w_trace w1 = w_trace w
         @ (if ch_manageable c then [] else [PermissionOverwritesCreate g cid])"
    and r1: "w_rejects w1 = w_rejects w"
    and l1: "(live w1 g cid \<noteq> None) = (live w g cid \<noteq> None)"
    using fixPermissions_ok [of c w g cid] by blast
  from a r1 l1 have "ch_name c = v \<or> accepted w1 g cid (SetName g cid v)"
    by (auto simp: accepted_def)
  then obtain w2 where n: "fixName g cid c v w1 = (Inr True, w2)"
    and t2: "w_trace w2 = w_trace w1 @ (if ch_name c \<noteq> v then [SetName g cid v] else [])"
    using fixName_ok [of c v w1 g cid] by blast
  obtain w3 where m: "fixParent g cid c grp w2 = (Inr (), w3)"
    and t3: "w_trace w3
        = w_trace w2 @ (if ch_parentId c \<noteq> Some grp then [EditParent g cid grp] else [])"
    using fixParent_run [of g cid c grp w2] by (cases "fixParent g cid c grp w2") auto
  obtain w4 where q: "fixPosition g cid c pos w3 = (Inr (), w4)"
    and t4: "w_trace w4
        = w_trace w3 @ (if ch_position c \<noteq> pos then [EditPosition g cid pos] else [])"
    using fixPosition_run [of g cid c pos w3] by (cases "fixPosition g cid c pos w3") auto
  from p n m q have run: "updateExisting g cid c v grp pos w = (Inr Updated, w4)"
    by (simp add: updateExisting_def andThen_def tryCatch_def ret_def)
  from run show "fst (updateExisting g cid c v grp pos w) = Inr Updated"
    by simp
  from run t1 t2 t3 t4
  show "new_events w (snd (updateExisting g cid c v grp pos w))
          = (if ch_manageable c then [] else [PermissionOverwritesCreate g cid])
            @ (if ch_name c \<noteq> v then [SetName g cid v] else [])
            @ (if ch_parentId c \<noteq> Some grp then [EditParent g cid grp] else [])
            @ (if ch_position c \<noteq> pos then [EditPosition g cid pos] else [])"
    by (simp add: new_events_def)
qed

text \<open>All cases occur: a refused permission overwrite, a refused rename, a rename that is
  carried out and followed by the move and the repositioning, and a refused move followed by
  the repositioning.\<close>

theorem drift_repair_steps_witness:
  "\<not> ch_manageable (price_101\<lparr>ch_name := ''$BIG: $1.0000'', ch_manageable := False\<rparr>)
   \<and> \<not> accepted locked_world ''g1'' ''101'' (PermissionOverwritesCreate ''g1'' ''101'')
   \<and> fst (updateExisting ''g1'' ''101''
        (price_101\<lparr>ch_name := ''$BIG: $1.0000'', ch_manageable := False\<rparr>)
        ''$BIG: $1,234.5000'' ''100'' 0 locked_world) = Inr PermissionFixFailed
   \<and> ch_manageable (price_101\<lparr>ch_name := ''$BIG: $1.0000'', ch_parentId := None, ch_position := 7\<rparr>)
   \<and> \<not> accepted drifted_world ''g1'' ''101'' (SetName ''g1'' ''101'' ''$BIG: $1,234.5000'')
   \<and> new_events drifted_world (snd (updateExisting ''g1'' ''101''
        (price_101\<lparr>ch_name := ''$BIG: $1.0000'', ch_parentId := None, ch_position := 7\<rparr>)
        ''$BIG: $1,234.5000'' ''100'' 0 drifted_world))
       = [SetName ''g1'' ''101'' ''$BIG: $1,234.5000'']
   \<and> accepted renamed_world ''g1'' ''101'' (SetName ''g1'' ''101'' ''$BIG: $1,234.5000'')
   \<and> new_events renamed_world (snd (updateExisting ''g1'' ''101''
        (price_101\<lparr>ch_name := ''$BIG: $1.0000'', ch_parentId := None, ch_position := 7\<rparr>)
        ''$BIG: $1,234.5000'' ''100'' 0 renamed_world))
       = [SetName ''g1'' ''101'' ''$BIG: $1,234.5000'', EditParent ''g1'' ''101'' ''100'',
          EditPosition ''g1'' ''101'' 0]
   \<and> ch_name (price_101\<lparr>ch_parentId := None, ch_position := 7\<rparr>) = ''$BIG: $1,234.5000''
   \<and> \<not> accepted misplaced_world ''g1'' ''101'' (EditParent ''g1'' ''101'' ''100'')
   \<and> new_events misplaced_world (snd (updateExisting ''g1'' ''101''
        (price_101\<lparr>ch_parentId := None, ch_position := 7\<rparr>)
        ''$BIG: $1,234.5000'' ''100'' 0 misplaced_world))
       = [EditParent ''g1'' ''101'' ''100'', EditPosition ''g1'' ''101'' 0]"
proof -
  let ?v = "''$BIG: $1,234.5000''"
  let ?locked = "price_101\<lparr>ch_name := ''$BIG: $1.0000'', ch_manageable := False\<rparr>"
  let ?drifted = "price_101\<lparr>ch_name := ''$BIG: $1.0000'', ch_parentId := None, ch_position := 7\<rparr>"
  let ?misplaced = "price_101\<lparr>ch_parentId := None, ch_position := 7\<rparr>"
  have a1: "\<not> ch_manageable ?locked
      \<and> \<not> accepted locked_world ''g1'' ''101'' (PermissionOverwritesCreate ''g1'' ''101'')"
    by (simp add: accepted_def world_defs)
  have a2: "ch_manageable ?drifted \<and> ch_name ?drifted \<noteq> ?v
      \<and> \<not> accepted drifted_world ''g1'' ''101'' (SetName ''g1'' ''101'' ?v)"
    by (simp add: accepted_def world_defs)
  have a3: "ch_manageable ?drifted \<and> ch_name ?drifted \<noteq> ?v
      \<and> ch_parentId ?drifted \<noteq> Some ''100'' \<and> ch_position ?drifted \<noteq> 0
      \<and> accepted renamed_world ''g1'' ''101'' (SetName ''g1'' ''101'' ?v)"
    by (simp add: accepted_def live_def world_defs)
  have a4: "ch_manageable ?misplaced \<and> ch_name ?misplaced = ?v
      \<and> ch_parentId ?misplaced \<noteq> Some ''100'' \<and> ch_position ?misplaced \<noteq> 0
      \<and> \<not> accepted misplaced_world ''g1'' ''101'' (EditParent ''g1'' ''101'' ''100'')"
    by (simp add: accepted_def world_defs)
  from conjunct1 [OF drift_repair_steps [of ?locked locked_world "''g1''" "''101''" ?v "''100''" 0]]
    a1
  have r1: "fst (updateExisting ''g1'' ''101'' ?locked ?v ''100'' 0 locked_world)
      = Inr PermissionFixFailed"
    by blast
  from conjunct1 [OF conjunct2 [OF drift_repair_steps [of ?drifted drifted_world "''g1''"
      "''101''" ?v "''100''" 0]]] a2
  have r2: "new_events drifted_world (snd (updateExisting ''g1'' ''101'' ?drifted ?v ''100'' 0
      drifted_world)) = [SetName ''g1'' ''101'' ?v]"
    by simp
  from conjunct2 [OF conjunct2 [OF drift_repair_steps [of ?drifted renamed_world "''g1''"
      "''101''" ?v "''100''" 0]]] a3
  have r3: "new_events renamed_world (snd (updateExisting ''g1'' ''101'' ?drifted ?v ''100'' 0
      renamed_world)) = [SetName ''g1'' ''101'' ?v, EditParent ''g1'' ''101'' ''100'',
          EditPosition ''g1'' ''101'' 0]"
    by simp
  from conjunct2 [OF conjunct2 [OF drift_repair_steps [of ?misplaced misplaced_world "''g1''"
      "''101''" ?v "''100''" 0]]] a4
  have r4: "new_events misplaced_world (snd (updateExisting ''g1'' ''101'' ?misplaced ?v ''100'' 0
      misplaced_world)) = [EditParent ''g1'' ''101'' ''100'', EditPosition ''g1'' ''101'' 0]"
    by simp
  from a1 a2 a3 a4 r1 r2 r3 r4 show ?thesis
    by (intro conjI) simp_all
qed

text \<open>C5 as stated fails: after the refused rename no move and no repositioning is
  attempted, although parent and position differ from the desired ones.\<close>

theorem rename_failure_counterexample:
  "w_rejects drifted_world (SetName ''g1'' ''101'' ''$BIG: $1,234.5000'')
   \<and> live drifted_world ''g1'' ''101''
       = Some (price_101\<lparr>ch_name := ''$BIG: $1.0000'', ch_parentId := None, ch_position := 7\<rparr>)
   \<and> fst (updatePriceChannel ''g1'' (Num (12345 / 10)) drifted_world) = Inr NameUpdateFailed
   \<and> filter is_move (new_events drifted_world
        (snd (updatePriceChannel ''g1'' (Num (12345 / 10)) drifted_world))) = []
   \<and> last (new_events drifted_world
        (snd (updatePriceChannel ''g1'' (Num (12345 / 10)) drifted_world)))
       = SetName ''g1'' ''101'' ''$BIG: $1,234.5000''"
  by (simp add: reconcile_defs io_defs store_defs platform_defs world_defs format_defs
      live_def new_events_def)

subsection \<open>A failed creation of the price indicator\<close>

lemma ends_with_self: "ends_with P c (c grp)"
proof -
  have "\<exists>w4 grpa. grows P w w4 \<and> c grp w = c grpa w4" for w
    using grows_refl [of P w] by blast
  then show ?thesis unfolding ends_with_def by blast
qed

lemma ends_with_emits: "emits P m \<Longrightarrow> ends_with P c m"
  by (simp add: ends_with_def emits_def)

lemma ends_with_ret: "ends_with P c (ret x)"
  by (rule ends_with_emits [OF emits_ret])

lemma ends_with_andThen:
  assumes "emits P m" and "\<And>x. ends_with P c (f x)"
  shows "ends_with P c (andThen m f)"
  unfolding ends_with_def
proof
  fix w
  obtain r w1 where m: "m w = (r, w1)" by (cases "m w")
  from assms(1) m have g1: "grows P w w1" by (auto simp: emits_def dest: spec [of _ w])
  show "grows P w (snd (andThen m f w))
      \<or> (\<exists>w4 grp. grows P w w4 \<and> andThen m f w = c grp w4)"
  proof (cases r)
    case (Inl e)
    with m g1 show ?thesis by (simp add: andThen_def)
  next
    case (Inr x)
    from assms(2) [of x] have "grows P w1 (snd (f x w1))
        \<or> (\<exists>w4 grp. grows P w1 w4 \<and> f x w1 = c grp w4)"
      by (simp add: ends_with_def)
    then show ?thesis
    proof
      assume "grows P w1 (snd (f x w1))"
      with g1 m Inr show ?thesis by (auto simp: andThen_def intro: grows_trans)
    next
      assume "\<exists>w4 grp. grows P w1 w4 \<and> f x w1 = c grp w4"
      then obtain w4 grp where "grows P w1 w4" and "f x w1 = c grp w4" by blast
      with g1 m Inr have "grows P w w4 \<and> andThen m f w = c grp w4"
        by (auto simp: andThen_def intro: grows_trans)
      then show ?thesis by blast
    qed
  qed
qed

lemma quiet_createChannelGroup: "emits no_indicator_create (createChannelGroup g)"
  unfolding createChannelGroup_def key_ops
  by (intro emits_intros) simp_all

lemma quiet_ensureChannelGroupExists: "emits no_indicator_create (ensureChannelGroupExists g)"
  unfolding ensureChannelGroupExists_def key_ops
  by (auto intro!: emits_intros quiet_createChannelGroup split: option.split)

lemma quiet_fetchChannelGroup: "emits no_indicator_create (fetchChannelGroup g c)"
  unfolding fetchChannelGroup_def key_ops
  by (auto intro!: emits_intros quiet_createChannelGroup split: option.split)

lemma quiet_fetchStoredChannel: "emits no_indicator_create (fetchStoredChannel g ct)"
  unfolding fetchStoredChannel_def key_ops
  by (auto intro!: emits_intros split: option.split channel_type.split)

lemma quiet_updateExisting: "emits no_indicator_create (updateExisting g cid c v grp pos)"
  unfolding updateExisting_def fixPermissions_def fixName_def fixParent_def fixPosition_def
    channel_ops
  by (auto intro!: emits_intros)

lemma updateChannel_body_ends:
  "ends_with no_indicator_create (\<lambda>grp. createChannel g ct v grp pos)
     (andThen (guilds_fetch g) (\<lambda>guild.
        andThen (members_fetch g) (\<lambda>botMember.
          if \<not> has_ManageChannels botMember then ret MissingManageChannels
          else if \<not> has_ViewChannel botMember then ret MissingViewChannel
          else if highest_role_position botMember = 0 then ret NoRoles
          else
            andThen (ensureChannelGroupExists g) (\<lambda>channelGroupId.
            andThen (fetchChannelGroup g channelGroupId) (\<lambda>groupId.
            andThen (fetchStoredChannel g ct) (\<lambda>channel.
              case channel of
                None \<Rightarrow> createChannel g ct v groupId pos
              | Some (cid, c) \<Rightarrow> updateExisting g cid c v groupId pos))))))"
  by (auto intro!: ends_with_andThen ends_with_ret ends_with_self
      ends_with_emits [OF quiet_updateExisting]
      emits_guilds_fetch emits_members_fetch quiet_ensureChannelGroupExists
      quiet_fetchChannelGroup quiet_fetchStoredChannel split: option.split)

lemma createChannel_run:
  "createChannel g ct v grp pos w =
     (if w_rejects w (ChannelsCreate g GuildVoice v (Some grp) pos)
      then (Inl ApiError, emit (ChannelsCreate g GuildVoice v (Some grp) pos) w)
      else if w_guilds w g = None
      then (Inl UnknownGuild, emit (ChannelsCreate g GuildVoice v (Some grp) pos) w)
      else (Inr Updated, snd (createChannel g ct v grp pos w)))
   \<and> (\<exists>evs. w_trace (snd (createChannel g ct v grp pos w))
          = w_trace w @ ChannelsCreate g GuildVoice v (Some grp) pos # evs
        \<and> list_all no_indicator_create evs)"
  by (cases ct)
     (auto simp: createChannel_def channels_create_def put_channel_def setChannelId_def
      setPriceChannelId_def setHalveningChannelId_def redis_set_def io_defs Let_def)

lemma refused_creation_is_caught:
  assumes ev: "ev \<in> set (new_events w (snd (updateChannel g ct v pos w)))"
    and ic: "is_indicator_create ev" and rj: "w_rejects w ev"
  shows "fst (updateChannel g ct v pos w) = Inr (Caught ApiError)
     \<and> last (new_events w (snd (updateChannel g ct v pos w))) = ev"
proof -
  let ?body = "andThen (guilds_fetch g) (\<lambda>guild.
        andThen (members_fetch g) (\<lambda>botMember.
          if \<not> has_ManageChannels botMember then ret MissingManageChannels
          else if \<not> has_ViewChannel botMember then ret MissingViewChannel
          else if highest_role_position botMember = 0 then ret NoRoles
          else
            andThen (ensureChannelGroupExists g) (\<lambda>channelGroupId.
            andThen (fetchChannelGroup g channelGroupId) (\<lambda>groupId.
            andThen (fetchStoredChannel g ct) (\<lambda>channel.
              case channel of
                None \<Rightarrow> createChannel g ct v groupId pos
              | Some (cid, c) \<Rightarrow> updateExisting g cid c v groupId pos)))))"
  have uc: "updateChannel g ct v pos w = tryCatch ?body (\<lambda>error. ret (Caught error)) w"
    by (simp add: updateChannel_def)
  have sw: "snd (updateChannel g ct v pos w) = snd (?body w)"
    unfolding uc by (simp add: tryCatch_def ret_def split: prod.splits sum.splits)
  from updateChannel_body_ends [of g ct v pos]
  have "grows no_indicator_create w (snd (?body w))
      \<or> (\<exists>w4 grp. grows no_indicator_create w w4 \<and> ?body w = createChannel g ct v grp pos w4)"
    unfolding ends_with_def by blast
  then show ?thesis
  proof
    assume "grows no_indicator_create w (snd (?body w))"
    then have "list_all no_indicator_create (new_events w (snd (updateChannel g ct v pos w)))"
      unfolding sw by (rule grows_events)
    with ev ic show ?thesis by (auto simp: list_all_iff)
  next
    assume "\<exists>w4 grp. grows no_indicator_create w w4 \<and> ?body w = createChannel g ct v grp pos w4"
    then obtain w4 grp where g4: "grows no_indicator_create w w4"
      and b: "?body w = createChannel g ct v grp pos w4" by blast
    let ?c = "ChannelsCreate g GuildVoice v (Some grp) pos"
    from createChannel_run [of g ct v grp pos w4]
    obtain evs where tr: "w_trace (snd (createChannel g ct v grp pos w4)) = w_trace w4 @ ?c # evs"
      and q: "list_all no_indicator_create evs" by blast
    from g4 obtain pre where pre: "w_trace w4 = w_trace w @ pre"
      and qp: "list_all no_indicator_create pre" and r4: "w_rejects w4 = w_rejects w"
      by (auto simp: grows_def)
    have ne: "new_events w (snd (updateChannel g ct v pos w)) = pre @ ?c # evs"
      unfolding sw b using tr pre by (simp add: new_events_def)
    with ev ic qp q have "ev = ?c"
      by (auto simp: list_all_iff)
    with rj r4 have "w_rejects w4 ?c" by simp
    with createChannel_run [of g ct v grp pos w4]
    have cr: "createChannel g ct v grp pos w4 = (Inl ApiError, emit ?c w4)" by simp
    have "updateChannel g ct v pos w = (Inr (Caught ApiError), emit ?c w4)"
      unfolding uc using b cr by (simp add: tryCatch_def ret_def)
    with pre \<open>ev = ?c\<close> show ?thesis
      by (simp add: new_events_def emit_def)
  qed
qed




subsection \<open>The tenant-join handler\<close>

lemma getStats_world: "snd (getStats w) = emit AxiosGet w"
  by (auto simp: getStats_def axios_get_def io_defs split: http_result.splits option.splits)




subsection \<open>The scheduled pass\<close>

lemma updateGuilds_visits:
  assumes "formatNumber blocks = Inr s"
  shows "g \<in> set gs \<Longrightarrow> GuildsFetch g \<in> set (new_events w (snd (updateGuilds gs price blocks w)))"
proof (induction gs arbitrary: w)
  case Nil
  then show ?case by simp
next
  case (Cons a gs)
  let ?P = "\<lambda>e::event. True"
  obtain d w1 where p: "updatePriceChannel a price w = (Inr d, w1)"
    using updateChannel_resolves [of a Price "price_label price" 0 w]
    by (cases "updatePriceChannel a price w") (auto simp: updatePriceChannel_def)
  obtain evs where st: "w_trace w1 = w_trace w @ GuildsFetch a # evs"
    using updateChannel_starts [of a Price "price_label price" 0 w] p
    by (auto simp: updatePriceChannel_def)
  obtain d' w2 where q: "updateHalveningChannel a blocks w1 = (Inr d', w2)"
    using updateChannel_resolves [of a Halvening "''HALVENING: '' @ s" 1 w1] assms
    by (cases "updateHalveningChannel a blocks w1") (auto simp: updateHalveningChannel_def)
  have "emits ?P (updateHalveningChannel a blocks)"
    by (rule emits_mono [OF emits_updateHalveningChannel]) simp
  with q have g2: "grows ?P w1 w2"
    by (auto simp: emits_def dest: spec [of _ w1])
  have "emits ?P (updateGuilds gs price blocks)"
    by (rule emits_mono [OF emits_updateGuilds]) simp
  then have g3: "grows ?P w2 (snd (updateGuilds gs price blocks w2))"
    by (simp add: emits_def)
  have run: "snd (updateGuilds (a # gs) price blocks w) = snd (updateGuilds gs price blocks w2)"
    using p q by (simp add: andThen_def)
  have "emits ?P (updatePriceChannel a price)"
    by (rule emits_mono [OF emits_updatePriceChannel]) simp
  with p have g1: "grows ?P w w1"
    by (auto simp: emits_def dest: spec [of _ w])
  have g12: "grows ?P w w2"
    using g1 g2 by (rule grows_trans)
  have split: "new_events w (snd (updateGuilds gs price blocks w2))
      = new_events w w1 @ new_events w1 w2 @ new_events w2 (snd (updateGuilds gs price blocks w2))"
    using grows_new_events [OF g12 g3] grows_new_events [OF g1 g2] by simp
  have first: "GuildsFetch a \<in> set (new_events w w1)"
    using st by (simp add: new_events_def)
  show ?case
  proof (cases "g = a")
    case True
    with first split run show ?thesis by simp
  next
    case False
    with Cons.prems have "g \<in> set gs" by simp
    from Cons.IH [OF this, of w2] split run show ?thesis by simp
  qed
qed

lemma updatePrice_trace:
  "\<exists>evs. new_events w (snd (updatePrice w)) = AxiosGet # evs
     \<and> (\<forall>e \<in> set evs. e = RedisGet GUILD_KEY
           \<or> (\<exists>price blocks. fst (getStats w) = Inr (price, blocks)
                \<and> pass_event (registered w) (snapshot_labels price blocks) e))"
proof -
  have sw: "snd (getStats w) = emit AxiosGet w"
    by (auto simp: getStats_def axios_get_def io_defs split: http_result.splits option.splits)
  show ?thesis
  proof (cases "fst (getStats w)")
    case (Inl e)
    with sw have "snd (updatePrice w) = emit AxiosGet w"
      by (cases "getStats w") (simp add: updatePrice_def andThen_def)
    then show ?thesis by simp
  next
    case (Inr pb)
    obtain price blocks where pb: "pb = (price, blocks)" by (cases pb)
    let ?w1 = "emit (RedisGet GUILD_KEY) (emit AxiosGet w)"
    have gs: "getGuilds (emit AxiosGet w) = (Inr (registered w), ?w1)"
      by (simp add: getGuilds_def registered_def emit_def split: option.splits)
    have base: "new_events w ?w1 = [AxiosGet, RedisGet GUILD_KEY]"
      by (simp add: new_events_def emit_def)
    let ?P = "pass_event (registered w) (snapshot_labels price blocks)"
    have gr: "grows ?P ?w1 (snd (updateGuilds (registered w) price blocks ?w1))"
      using emits_updateGuilds [of "registered w" price blocks] by (simp add: emits_def)
    have g0: "grows (\<lambda>e. True) w ?w1"
      by (simp add: grows_def emit_def)
    have full: "new_events w (snd (updateGuilds (registered w) price blocks ?w1))
        = [AxiosGet, RedisGet GUILD_KEY]
          @ new_events ?w1 (snd (updateGuilds (registered w) price blocks ?w1))"
      using grows_new_events [OF g0 gr] base by simp
    have cases: "snd (updatePrice w) = ?w1
        \<or> snd (updatePrice w) = snd (updateGuilds (registered w) price blocks ?w1)"
      using Inr pb sw gs
      by (cases "getStats w")
         (auto simp: updatePrice_def andThen_def ret_def throw_def split: sum.splits)
    from cases show ?thesis
    proof
      assume "snd (updatePrice w) = ?w1"
      with base show ?thesis by simp
    next
      assume "snd (updatePrice w) = snd (updateGuilds (registered w) price blocks ?w1)"
      with full grows_events [OF gr] Inr pb show ?thesis
        by (auto simp: list_all_iff simp del: pass_event.simps)
    qed
  qed
qed

lemma map_filter_app: "List.map_filter f (xs @ ys) = List.map_filter f xs @ List.map_filter f ys"
  by (simp add: List.map_filter_def)

lemma fetched_guild_reconcile: "reconcile_event g v e \<Longrightarrow> fetched_guild e = None \<or> fetched_guild e = Some g"
  by (cases e) auto

lemma block_fetches:
  "list_all (\<lambda>e. \<exists>v. reconcile_event g v e) evs \<Longrightarrow>
     \<exists>k. List.map_filter fetched_guild evs = replicate k g"
proof (induction evs)
  case Nil
  show ?case by (simp add: List.map_filter_def)
next
  case (Cons e evs)
  then obtain k where k: "List.map_filter fetched_guild evs = replicate k g" by auto
  from Cons.prems obtain v where "reconcile_event g v e" by auto
  then have "fetched_guild e = None \<or> fetched_guild e = Some g"
    by (rule fetched_guild_reconcile)
  then show ?case
  proof
    assume "fetched_guild e = None"
    with k show ?thesis by (auto simp: List.map_filter_def)
  next
    assume "fetched_guild e = Some g"
    with k have "List.map_filter fetched_guild (e # evs) = replicate (Suc k) g"
      by (simp add: List.map_filter_def)
    then show ?thesis by blast
  qed
qed

lemma remdups_adj_replicate_app:
  "remdups_adj (replicate (Suc k) g @ xs) = remdups_adj (g # xs)"
  by (induction k) simp_all

lemma remdups_adj_cong_Cons:
  "remdups_adj xs = remdups_adj ys \<Longrightarrow> remdups_adj (a # xs) = remdups_adj (a # ys)"
  by (simp add: remdups_adj_Cons)

lemma updateGuilds_order:
  assumes "formatNumber blocks = Inr s"
  shows "visit_order (new_events w (snd (updateGuilds gs price blocks w))) = remdups_adj gs"
proof (induction gs arbitrary: w)
  case Nil
  show ?case by (simp add: ret_def new_events_def visit_order_def List.map_filter_def)
next
  case (Cons a gs)
  let ?P = "\<lambda>e. \<exists>v. reconcile_event a v e"
  obtain d w1 where p: "updatePriceChannel a price w = (Inr d, w1)"
    using updateChannel_resolves [of a Price "price_label price" 0 w]
    by (cases "updatePriceChannel a price w") (auto simp: updatePriceChannel_def)
  obtain evs where st: "w_trace w1 = w_trace w @ GuildsFetch a # evs"
    using updateChannel_starts [of a Price "price_label price" 0 w] p
    by (auto simp: updatePriceChannel_def)
  obtain d' w2 where q: "updateHalveningChannel a blocks w1 = (Inr d', w2)"
    using updateChannel_resolves [of a Halvening "''HALVENING: '' @ s" 1 w1] assms
    by (cases "updateHalveningChannel a blocks w1") (auto simp: updateHalveningChannel_def)
  have "emits ?P (updatePriceChannel a price)"
    by (rule emits_mono [OF emits_updatePriceChannel]) blast
  with p have g1: "grows ?P w w1"
    by (auto simp: emits_def dest: spec [of _ w])
  have "emits ?P (updateHalveningChannel a blocks)"
    by (rule emits_mono [OF emits_updateHalveningChannel]) blast
  with q have g2: "grows ?P w1 w2"
    by (auto simp: emits_def dest: spec [of _ w1])
  have g12: "grows ?P w w2"
    using g1 g2 by (rule grows_trans)
  have "emits (\<lambda>e. True) (updateGuilds gs price blocks)"
    by (rule emits_mono [OF emits_updateGuilds]) simp
  then have g3: "grows (\<lambda>e. True) w2 (snd (updateGuilds gs price blocks w2))"
    by (simp add: emits_def)
  have run: "snd (updateGuilds (a # gs) price blocks w) = snd (updateGuilds gs price blocks w2)"
    using p q by (simp add: andThen_def)
  have split: "new_events w (snd (updateGuilds gs price blocks w2))
      = new_events w w2 @ new_events w2 (snd (updateGuilds gs price blocks w2))"
    using grows_new_events [OF g12 g3] by simp
  obtain k where k: "List.map_filter fetched_guild (new_events w w2) = replicate k a"
    using block_fetches [OF grows_events [OF g12]] by blast
  have "new_events w w2 = new_events w w1 @ new_events w1 w2"
    using grows_new_events [OF g1 g2] .
  moreover have "new_events w w1 = GuildsFetch a # evs"
    using st by (simp add: new_events_def)
  ultimately have "List.map_filter fetched_guild (new_events w w2) \<noteq> []"
    by (simp add: List.map_filter_def)
  with k obtain k' where k': "k = Suc k'"
    by (cases k) auto
  have "visit_order (new_events w (snd (updateGuilds (a # gs) price blocks w)))
      = remdups_adj (replicate (Suc k') a
          @ List.map_filter fetched_guild (new_events w2 (snd (updateGuilds gs price blocks w2))))"
    using run split k k' by (simp add: visit_order_def map_filter_app)
  also have "\<dots> = remdups_adj (a
      # List.map_filter fetched_guild (new_events w2 (snd (updateGuilds gs price blocks w2))))"
    by (rule remdups_adj_replicate_app)
  also have "\<dots> = remdups_adj (a # gs)"
    using Cons.IH [of w2] by (intro remdups_adj_cong_Cons) (simp add: visit_order_def)
  finally show ?case .
qed

lemma updatePrice_order:
  assumes "fst (getStats w) = Inr (price, blocks)" and "formatNumber blocks = Inr s"
  shows "visit_order (new_events w (snd (updatePrice w))) = remdups_adj (registered w)"
proof -
  have sw: "snd (getStats w) = emit AxiosGet w"
    by (auto simp: getStats_def axios_get_def io_defs split: http_result.splits option.splits)
  let ?w1 = "emit (RedisGet GUILD_KEY) (emit AxiosGet w)"
  have gs: "getGuilds (emit AxiosGet w) = (Inr (registered w), ?w1)"
    by (simp add: getGuilds_def registered_def emit_def split: option.splits)
  have base: "new_events w ?w1 = [AxiosGet, RedisGet GUILD_KEY]"
    by (simp add: new_events_def emit_def)
  show ?thesis
  proof (cases "registered w = []")
    case True
    with assms sw gs have "snd (updatePrice w) = ?w1"
      by (cases "getStats w") (simp add: updatePrice_def andThen_def ret_def)
    with base True show ?thesis
      by (simp add: visit_order_def List.map_filter_def)
  next
    case False
    with assms sw gs
    have run: "snd (updatePrice w) = snd (updateGuilds (registered w) price blocks ?w1)"
      by (cases "getStats w") (simp add: updatePrice_def andThen_def)
    have gr: "grows (\<lambda>e. True) ?w1 (snd (updateGuilds (registered w) price blocks ?w1))"
      using emits_mono [OF emits_updateGuilds [of "registered w" price blocks], of "\<lambda>e. True"]
      by (simp add: emits_def)
    have g0: "grows (\<lambda>e. True) w ?w1"
      by (simp add: grows_def emit_def)
    have "new_events w (snd (updatePrice w)) = [AxiosGet, RedisGet GUILD_KEY]
        @ new_events ?w1 (snd (updateGuilds (registered w) price blocks ?w1))"
      using grows_new_events [OF g0 gr] base run by simp
    then have "visit_order (new_events w (snd (updatePrice w)))
        = visit_order (new_events ?w1 (snd (updateGuilds (registered w) price blocks ?w1)))"
      by (simp add: visit_order_def List.map_filter_def)
    with updateGuilds_order [OF assms(2)] show ?thesis
      by simp
  qed
qed

lemma updatePrice_fetches_first:
  "\<exists>evs. new_events w (snd (updatePrice w)) = AxiosGet # evs \<and> AxiosGet \<notin> set evs"
proof -
  obtain evs where evs: "new_events w (snd (updatePrice w)) = AxiosGet # evs"
    and rest: "\<forall>e \<in> set evs. e = RedisGet GUILD_KEY
           \<or> (\<exists>price blocks. fst (getStats w) = Inr (price, blocks)
                \<and> pass_event (registered w) (snapshot_labels price blocks) e)"
    using updatePrice_trace [of w] by blast
  have "\<forall>e \<in> set evs. e \<noteq> AxiosGet"
    using rest by (auto dest: reconcile_event_not_registry)
  with evs show ?thesis by blast
qed

lemma updatePrice_calls:
  "filter (\<lambda>e. e = AxiosGet) (new_events w (snd (updatePrice w))) = [AxiosGet]
   \<and> (\<forall>e \<in> set (new_events w (snd (updatePrice w))). \<forall>n. written_name e = Some n \<longrightarrow>
         (\<exists>price blocks. fst (getStats w) = Inr (price, blocks)
            \<and> n \<in> set (snapshot_labels price blocks)))
   \<and> (\<forall>price blocks s. fst (getStats w) = Inr (price, blocks) \<and> formatNumber blocks = Inr s \<longrightarrow>
         (\<forall>g \<in> set (registered w).
            GuildsFetch g \<in> set (new_events w (snd (updatePrice w)))))"
proof (intro conjI allI impI ballI)
  obtain evs where evs: "new_events w (snd (updatePrice w)) = AxiosGet # evs"
    and rest: "\<forall>e \<in> set evs. e = RedisGet GUILD_KEY
           \<or> (\<exists>price blocks. fst (getStats w) = Inr (price, blocks)
                \<and> pass_event (registered w) (snapshot_labels price blocks) e)"
    using updatePrice_trace [of w] by blast
  have "\<forall>e \<in> set evs. e \<noteq> AxiosGet"
    using rest by (auto dest: reconcile_event_not_registry)
  then have "filter (\<lambda>e. e = AxiosGet) evs = []"
    by (auto simp: filter_empty_conv)
  with evs show "filter (\<lambda>e. e = AxiosGet) (new_events w (snd (updatePrice w))) = [AxiosGet]"
    by simp
  fix e n
  assume e: "e \<in> set (new_events w (snd (updatePrice w)))" and n: "written_name e = Some n"
  from e evs n have "e \<in> set evs" by auto
  with rest have "e = RedisGet GUILD_KEY
      \<or> (\<exists>price blocks. fst (getStats w) = Inr (price, blocks)
           \<and> pass_event (registered w) (snapshot_labels price blocks) e)"
    by blast
  moreover have "e \<noteq> RedisGet GUILD_KEY"
    using n by auto
  ultimately obtain price blocks where gs: "fst (getStats w) = Inr (price, blocks)"
    and pe: "pass_event (registered w) (snapshot_labels price blocks) e"
    by blast
  from pe n have "n \<in> set (snapshot_labels price blocks)"
    by (auto dest: reconcile_event_name)
  with gs show "\<exists>price blocks. fst (getStats w) = Inr (price, blocks)
            \<and> n \<in> set (snapshot_labels price blocks)"
    by blast
next
  fix price blocks s g
  assume a: "fst (getStats w) = Inr (price, blocks) \<and> formatNumber blocks = Inr s"
    and g: "g \<in> set (registered w)"
  have sw: "snd (getStats w) = emit AxiosGet w"
    by (auto simp: getStats_def axios_get_def io_defs split: http_result.splits option.splits)
  let ?w1 = "emit (RedisGet GUILD_KEY) (emit AxiosGet w)"
  have gs: "getGuilds (emit AxiosGet w) = (Inr (registered w), ?w1)"
    by (simp add: getGuilds_def registered_def emit_def split: option.splits)
  from g have ne: "registered w \<noteq> []" by auto
  have run: "snd (updatePrice w) = snd (updateGuilds (registered w) price blocks ?w1)"
    using a sw gs ne
    by (cases "getStats w") (simp add: updatePrice_def andThen_def)
  have gr: "grows (\<lambda>e. True) ?w1 (snd (updateGuilds (registered w) price blocks ?w1))"
    using emits_mono [OF emits_updateGuilds [of "registered w" price blocks], of "\<lambda>e. True"]
    by (simp add: emits_def)
  have g0: "grows (\<lambda>e. True) w ?w1"
    by (simp add: grows_def emit_def)
  from updateGuilds_visits [of blocks s g "registered w" ?w1 price] a g
  have "GuildsFetch g \<in> set (new_events ?w1 (snd (updateGuilds (registered w) price blocks ?w1)))"
    by simp
  with grows_new_events [OF g0 gr] run
  show "GuildsFetch g \<in> set (new_events w (snd (updatePrice w)))"
    by simp
qed

text \<open>
  What one pass of \<open>updatePrice\<close> calls: the metrics endpoint exactly once, as its first
  call. Every display name that the pass writes to an indicator, by creating it or renaming
  it, is one of the two names of the snapshot that this one call returned. When the
  snapshot can be formatted, every registered guild is fetched, one after the other in the
  order of the registry.
\<close>

lemma pass_trace_shape:
  "(\<exists>evs. new_events w (snd (updatePrice w)) = AxiosGet # evs \<and> AxiosGet \<notin> set evs)
   \<and> filter (\<lambda>e. e = AxiosGet) (new_events w (snd (updatePrice w))) = [AxiosGet]
   \<and> (\<forall>e \<in> set (new_events w (snd (updatePrice w))). \<forall>n. written_name e = Some n \<longrightarrow>
         (\<exists>price blocks. fst (getStats w) = Inr (price, blocks)
            \<and> n \<in> set (snapshot_labels price blocks)))
   \<and> (\<forall>price blocks s. fst (getStats w) = Inr (price, blocks) \<and> formatNumber blocks = Inr s \<longrightarrow>
         (\<forall>g \<in> set (registered w).
            GuildsFetch g \<in> set (new_events w (snd (updatePrice w))))
         \<and> visit_order (new_events w (snd (updatePrice w))) = remdups_adj (registered w))"
proof -
  note t = updatePrice_calls [of w]
  have f: "\<exists>evs. new_events w (snd (updatePrice w)) = AxiosGet # evs \<and> AxiosGet \<notin> set evs"
    by (rule updatePrice_fetches_first)
  have a: "filter (\<lambda>e. e = AxiosGet) (new_events w (snd (updatePrice w))) = [AxiosGet]"
    by (rule conjunct1 [OF t])
  have b: "\<forall>e \<in> set (new_events w (snd (updatePrice w))). \<forall>n. written_name e = Some n \<longrightarrow>
         (\<exists>price blocks. fst (getStats w) = Inr (price, blocks)
            \<and> n \<in> set (snapshot_labels price blocks))"
    by (rule conjunct1 [OF conjunct2 [OF t]])
  have c: "\<forall>price blocks s. fst (getStats w) = Inr (price, blocks) \<and> formatNumber blocks = Inr s \<longrightarrow>
         (\<forall>g \<in> set (registered w).
            GuildsFetch g \<in> set (new_events w (snd (updatePrice w))))"
    by (rule conjunct2 [OF conjunct2 [OF t]])
  have d: "\<forall>price blocks s. fst (getStats w) = Inr (price, blocks) \<and> formatNumber blocks = Inr s \<longrightarrow>
         visit_order (new_events w (snd (updatePrice w))) = remdups_adj (registered w)"
    using updatePrice_order [of w] by blast
  from c d have "\<forall>price blocks s. fst (getStats w) = Inr (price, blocks) \<and> formatNumber blocks = Inr s \<longrightarrow>
         (\<forall>g \<in> set (registered w).
            GuildsFetch g \<in> set (new_events w (snd (updatePrice w))))
         \<and> visit_order (new_events w (snd (updatePrice w))) = remdups_adj (registered w)"
    by blast
  with f a b show ?thesis
    by (intro conjI)
qed

lemma pass_trace_shape_example:
  "fst (getStats price_rejecting_world) = Inr (Num (12345 / 10), Num 1500000)
   \<and> formatNumber (Num 1500000) = Inr ''1.5M''
   \<and> ''g1'' \<in> set (registered price_rejecting_world)
   \<and> ChannelsCreate ''g1'' GuildVoice ''HALVENING: 1.5M'' (Some ''100'') 1
       \<in> set (new_events price_rejecting_world (snd (updatePrice price_rejecting_world)))
   \<and> ''HALVENING: 1.5M'' \<in> set (snapshot_labels (Num (12345 / 10)) (Num 1500000))
   \<and> GuildsFetch ''g1''
       \<in> set (new_events price_rejecting_world (snd (updatePrice price_rejecting_world)))
   \<and> visit_order (new_events price_rejecting_world (snd (updatePrice price_rejecting_world)))
       = [''g1'']
   \<and> filter (\<lambda>e. e = AxiosGet)
        (new_events price_rejecting_world (snd (updatePrice price_rejecting_world)))
       = [AxiosGet]"
proof -
  let ?W = price_rejecting_world
  let ?evs = "new_events ?W (snd (updatePrice ?W))"
  have s: "fst (getStats ?W) = Inr (Num (12345 / 10), Num 1500000)"
    by (simp add: getStats_def axios_get_def io_defs world_defs)
  have f: "formatNumber (Num 1500000) = Inr ''1.5M''"
    by (simp add: format_defs)
  have r: "registered ?W = [''g1'']"
    by (simp add: registered_def world_defs)
  have c: "ChannelsCreate ''g1'' GuildVoice ''HALVENING: 1.5M'' (Some ''100'') 1 \<in> set ?evs"
    by (simp add: updatePrice_def eval_defs)
  note t = pass_trace_shape [of ?W]
  have a: "filter (\<lambda>e. e = AxiosGet) ?evs = [AxiosGet]"
    by (rule conjunct1 [OF conjunct2 [OF t]])
  from conjunct1 [OF conjunct2 [OF conjunct2 [OF t]]] c
  have "\<forall>n. written_name (ChannelsCreate ''g1'' GuildVoice ''HALVENING: 1.5M'' (Some ''100'') 1)
      = Some n \<longrightarrow> (\<exists>price blocks. fst (getStats ?W) = Inr (price, blocks)
          \<and> n \<in> set (snapshot_labels price blocks))"
    by (rule bspec)
  then have "\<exists>price blocks. fst (getStats ?W) = Inr (price, blocks)
      \<and> ''HALVENING: 1.5M'' \<in> set (snapshot_labels price blocks)"
    by simp
  with s have l: "''HALVENING: 1.5M'' \<in> set (snapshot_labels (Num (12345 / 10)) (Num 1500000))"
    by simp
  from conjunct2 [OF conjunct2 [OF conjunct2 [OF t]]] s f
  have v: "(\<forall>g \<in> set (registered ?W). GuildsFetch g \<in> set ?evs)
      \<and> visit_order ?evs = remdups_adj (registered ?W)"
    by blast
  with r have g: "GuildsFetch ''g1'' \<in> set ?evs" and o: "visit_order ?evs = [''g1'']"
    by simp_all
  from s f r c l g o a show ?thesis
    by simp
qed

text \<open>When the snapshot is there and can be formatted, the pass is the reconciliation of
  the registered guilds, one after the other, each with the price and the countdown of that
  snapshot.\<close>

lemma updatePrice_reconciles_each:
  assumes "fst (getStats w) = Inr (price, blocks)" and "formatNumber blocks = Inr s"
  shows "updatePrice w
    = updateGuilds (registered w) price blocks (emit (RedisGet GUILD_KEY) (emit AxiosGet w))"
proof -
  obtain w0 where gs: "getStats w = (Inr (price, blocks), w0)"
    using assms(1) by (cases "getStats w") simp
  with getStats_world [of w] have w0: "w0 = emit AxiosGet w" by simp
  show ?thesis
    using gs assms(2) unfolding w0
    by (cases "w_registry w")
       (simp_all add: updatePrice_def getGuilds_def registered_def redis_get_def io_defs)
qed

text \<open>
  C8. A pass whose metrics request fails reconciles no guild: \<open>updatePrice\<close> of
  \<^verbatim>\<open>src/index.ts\<close> rejects with the error of the request right after it, also when guilds
  are registered, since \<open>getStats\<close> hands the error on.
\<close>

theorem updatePrice_rejects_without_snapshot:
  "updatePrice (w\<lparr>w_http := TransportFailure\<rparr>)
     = (Inl NetworkError, emit AxiosGet (w\<lparr>w_http := TransportFailure\<rparr>))
   \<and> updatePrice (w\<lparr>w_http := NonSuccess status\<rparr>)
     = (Inl (HttpError status), emit AxiosGet (w\<lparr>w_http := NonSuccess status\<rparr>))
   \<and> registered offline_world = [''g1'']
   \<and> fst (updatePrice offline_world) = Inl NetworkError
   \<and> new_events offline_world (snd (updatePrice offline_world)) = [AxiosGet]
   \<and> GuildsFetch ''g1'' \<notin> set (new_events offline_world (snd (updatePrice offline_world)))"
  by (simp add: updatePrice_def getStats_def axios_get_def io_defs registered_def
      new_events_def world_defs)

subsection \<open>Idempotence on a converged guild\<close>

lemma live_trace [simp]: "live (w\<lparr>w_trace := t\<rparr>) g c = live w g c"
  by (simp add: live_def)

lemma live_guild: "live w g c = Some ch \<Longrightarrow> \<exists>gd. w_guilds w g = Some gd \<and> g_channels gd c = Some (Some ch)"
  by (auto simp: live_def split: option.splits)

lemma ensure_converged:
  assumes "truthy_id (w_kv w (channelGroup_key g)) = Some grp" and "live w g grp = Some cg"
  shows "ensureChannelGroupExists g w = (Inr grp,
     w\<lparr>w_trace := w_trace w @ [GuildsFetch g, RedisGet (channelGroup_key g), ChannelsFetch g grp]\<rparr>)"
  using assms live_guild [OF assms(2)]
  by (auto simp: ensureChannelGroupExists_def guilds_fetch_def channels_fetch_def
      getChannelGroupId_def redis_get_def io_defs)

lemma fetchChannelGroup_converged:
  assumes "live w g grp = Some cg" and "ch_kind cg = GuildCategory"
  shows "fetchChannelGroup g grp w = (Inr grp, w\<lparr>w_trace := w_trace w @ [ChannelsFetch g grp]\<rparr>)"
  using assms live_guild [OF assms(1)]
  by (auto simp: fetchChannelGroup_def channels_fetch_def io_defs)

lemma getChannelId_child_key:
  "getChannelId ct g w = (Inr (truthy_id (w_kv w (child_key ct g))),
     w\<lparr>w_trace := w_trace w @ [RedisGet (child_key ct g)]\<rparr>)"
  by (cases ct)
     (simp_all add: getChannelId_def child_key_def getPriceChannelId_def
      getHalveningChannelId_def redis_get_def io_defs)

lemma fetchStoredChannel_converged:
  assumes "truthy_id (w_kv w (child_key ct g)) = Some cid" and "live w g cid = Some c"
    and "ch_kind c = GuildVoice"
  shows "fetchStoredChannel g ct w = (Inr (Some (cid, c)),
     w\<lparr>w_trace := w_trace w @ [RedisGet (child_key ct g), ChannelsFetch g cid]\<rparr>)"
  using assms live_guild [OF assms(2)]
  by (auto simp: fetchStoredChannel_def getChannelId_child_key channels_fetch_def
      andThen_def tryCatch_def ret_def emit_def)

lemma updateExisting_converged:
  assumes "ch_manageable c" and "ch_name c = v" and "ch_parentId c = Some grp"
    and "ch_position c = pos"
  shows "updateExisting g cid c v grp pos w = (Inr Updated, w)"
  using assms
  by (simp add: updateExisting_def fixPermissions_def fixName_def fixParent_def
      fixPosition_def io_defs)

lemma updateChannel_converged:
  assumes grp: "truthy_id (w_kv w (channelGroup_key g)) = Some grp"
    and cg: "live w g grp = Some cg" "ch_kind cg = GuildCategory"
    and child: "child_converged w g ct grp v pos"
    and man: "child_manageable w g ct"
  shows "\<exists>evs. snd (updateChannel g ct v pos w) = w\<lparr>w_trace := w_trace w @ evs\<rparr>
           \<and> list_all quiet evs"
proof -
  obtain cid c where cid: "truthy_id (w_kv w (child_key ct g)) = Some cid"
    and c: "live w g cid = Some c" "ch_kind c = GuildVoice" "ch_name c = v"
      "ch_parentId c = Some grp" "ch_position c = pos"
    using child by (auto simp: child_converged_def split: option.splits)
  from man cid c have mc: "ch_manageable c"
    by (simp add: child_manageable_def)
  obtain gd where gd: "w_guilds w g = Some gd"
    using live_guild [OF cg(1)] by blast
  let ?w1 = "w\<lparr>w_trace := w_trace w @ [GuildsFetch g, MembersFetch g]\<rparr>"
  show ?thesis
  proof (cases "g_member gd")
    case None
    with gd show ?thesis
      by (auto simp: updateChannel_def guilds_fetch_def members_fetch_def io_defs quiet_def
          intro!: exI [of _ "[GuildsFetch g, MembersFetch g]"])
  next
    case (Some m)
    show ?thesis
    proof (cases "has_ManageChannels m \<and> has_ViewChannel m \<and> highest_role_position m \<noteq> 0")
      case False
      with gd Some show ?thesis
        by (auto simp: updateChannel_def guilds_fetch_def members_fetch_def io_defs quiet_def
            intro!: exI [of _ "[GuildsFetch g, MembersFetch g]"])
    next
      case True
      let ?evs = "[GuildsFetch g, MembersFetch g, GuildsFetch g,
        RedisGet (channelGroup_key g), ChannelsFetch g grp, ChannelsFetch g grp,
        RedisGet (child_key ct g), ChannelsFetch g cid]"
      have "snd (updateChannel g ct v pos w) = w\<lparr>w_trace := w_trace w @ ?evs\<rparr>"
        using gd Some True grp cg cid c mc
        by (simp add: updateChannel_def guilds_fetch_def members_fetch_def
            andThen_def tryCatch_def emit_def
            ensure_converged [where grp = grp and cg = cg]
            fetchChannelGroup_converged [where cg = cg]
            fetchStoredChannel_converged [where cid = cid and c = c]
            updateExisting_converged)
      then show ?thesis
        by (auto simp: quiet_def intro!: exI [of _ ?evs])
    qed
  qed
qed

lemma child_converged_trace [simp]:
  "child_converged (w\<lparr>w_trace := t\<rparr>) g ct grp v pos = child_converged w g ct grp v pos"
  by (simp add: child_converged_def split: option.splits)

lemma child_manageable_trace [simp]:
  "child_manageable (w\<lparr>w_trace := t\<rparr>) g ct = child_manageable w g ct"
  by (simp add: child_manageable_def split: option.splits)

text \<open>The world \<open>settled_world\<close> is what the join handler leaves of \<open>fresh_world\<close>,
  with the trace of its calls.\<close>

lemma first_pass_settles:
  "guildCreate ''g1'' fresh_world = (Inr (), settled_world\<lparr>w_trace :=
       [AxiosGet, GuildsFetch ''g1'', MembersFetch ''g1'', GuildsFetch ''g1'',
        RedisGet ''g1:channelGroup'', GuildsFetch ''g1'',
        ChannelsCreate ''g1'' GuildCategory group_name None 0,
        RedisSet ''g1:channelGroup'', ChannelsFetch ''g1'' ''100'',
        RedisGet ''g1:priceChannel'',
        ChannelsCreate ''g1'' GuildVoice ''$BIG: $1,234.5000'' (Some ''100'') 0,
        RedisSet ''g1:priceChannel'', GuildsFetch ''g1'', MembersFetch ''g1'',
        GuildsFetch ''g1'', RedisGet ''g1:channelGroup'',
        ChannelsFetch ''g1'' ''100'', ChannelsFetch ''g1'' ''100'',
        RedisGet ''g1:halveningChannel'',
        ChannelsCreate ''g1'' GuildVoice ''HALVENING: 1.5M'' (Some ''100'') 1,
        RedisSet ''g1:halveningChannel'', RedisGet GUILD_KEY, RedisSet GUILD_KEY]\<rparr>)"
  by (simp add: guildCreate_def eval_defs)

text \<open>
  C1. On a converged guild whose two indicators the platform reports as manageable, the
  reconciliation (the update of the price indicator followed by the update of the countdown
  indicator, with the same desired values) makes no mutating call to the platform and no
  write to the store, and leaves the store and the platform's channels as they are.
\<close>

theorem reconcile_idempotent:
  assumes "converged w g price blocks"
    and "child_manageable w g Price" and "child_manageable w g Halvening"
  shows "filter is_mutation (new_events w
           (snd (updateHalveningChannel g blocks (snd (updatePriceChannel g price w))))) = []
     \<and> filter is_store_write (new_events w
           (snd (updateHalveningChannel g blocks (snd (updatePriceChannel g price w))))) = []
     \<and> w_kv (snd (updateHalveningChannel g blocks (snd (updatePriceChannel g price w)))) = w_kv w
     \<and> w_guilds (snd (updateHalveningChannel g blocks (snd (updatePriceChannel g price w))))
         = w_guilds w"
proof -
  obtain grp cg s where grp: "truthy_id (w_kv w (channelGroup_key g)) = Some grp"
    and cg: "live w g grp = Some cg" "ch_kind cg = GuildCategory"
    and p: "child_converged w g Price grp (price_label price) 0"
    and s: "formatNumber blocks = Inr s"
    and h: "child_converged w g Halvening grp (''HALVENING: '' @ s) 1"
    using assms(1) by (auto simp: converged_def split: option.splits sum.splits)
  obtain evs1 where w1: "snd (updatePriceChannel g price w) = w\<lparr>w_trace := w_trace w @ evs1\<rparr>"
    and q1: "list_all quiet evs1"
    using updateChannel_converged [OF grp cg p assms(2)]
    by (auto simp: updatePriceChannel_def)
  let ?w1 = "w\<lparr>w_trace := w_trace w @ evs1\<rparr>"
  have "\<exists>evs. snd (updateChannel g Halvening (''HALVENING: '' @ s) 1 ?w1)
      = ?w1\<lparr>w_trace := w_trace ?w1 @ evs\<rparr> \<and> list_all quiet evs"
    by (rule updateChannel_converged [where grp = grp and cg = cg])
       (use grp cg h assms(3) in simp_all)
  then obtain evs2 where w2: "snd (updateHalveningChannel g blocks ?w1)
      = w\<lparr>w_trace := w_trace w @ evs1 @ evs2\<rparr>"
    and q2: "list_all quiet evs2"
    using s by (auto simp: updateHalveningChannel_def)
  from q1 q2 have "filter is_mutation (evs1 @ evs2) = []"
    and "filter is_store_write (evs1 @ evs2) = []"
    by (auto simp: quiet_def list_all_iff filter_empty_conv)
  with w1 w2 show ?thesis
    by (simp add: new_events_def)
qed

theorem reconcile_idempotent_witness:
  "converged settled_world ''g1'' (Num (12345 / 10)) (Num 1500000)
   \<and> child_manageable settled_world ''g1'' Price
   \<and> child_manageable settled_world ''g1'' Halvening
   \<and> filter is_mutation (new_events settled_world
        (snd (updateHalveningChannel ''g1'' (Num 1500000)
           (snd (updatePriceChannel ''g1'' (Num (12345 / 10)) settled_world))))) = []"
proof -
  have c: "converged settled_world ''g1'' (Num (12345 / 10)) (Num 1500000)"
    by (simp add: converged_def child_converged_def child_key_def eval_defs)
  have p: "child_manageable settled_world ''g1'' Price"
    by (simp add: child_manageable_def child_key_def eval_defs)
  have h: "child_manageable settled_world ''g1'' Halvening"
    by (simp add: child_manageable_def child_key_def eval_defs)
  from reconcile_idempotent [OF c p h] c p h show ?thesis
    by blast
qed

text \<open>C1 as stated fails: a converged guild whose price indicator is reported as not
  manageable gets a permission overwrite written in every pass (lines 435 to 454).\<close>

theorem unmanageable_counterexample:
  "converged unmanageable_world ''g1'' (Num (12345 / 10)) (Num 1500000)
   \<and> filter is_mutation (new_events unmanageable_world
        (snd (updatePriceChannel ''g1'' (Num (12345 / 10)) unmanageable_world)))
       = [PermissionOverwritesCreate ''g1'' ''101'']"
  by (simp add: converged_def child_converged_def child_key_def eval_defs)

end
